theory Spec2Isabelle
  imports Complex_Main "HOL-Library.Sublist" "HOL-Library.Multiset"
begin

section \<open>Strings\<close>

text \<open>
  Go strings are byte sequences; they are modelled as \<open>string\<close> (a list of 8-bit
  characters).  The three library functions the keyword strategy uses are modelled on the
  ASCII range: \<open>strings.ToLower\<close> maps \<open>A..Z\<close> to \<open>a..z\<close> byte by byte,
  \<open>strings.TrimSpace\<close> removes leading and trailing ASCII white space, and
  \<open>strings.Contains s substr\<close> holds when \<open>substr\<close> is a contiguous part of
  \<open>s\<close> (so it holds for every \<open>s\<close> when \<open>substr\<close> is empty).  The proofs
  below use of \<open>ToLower\<close> only that it maps the empty string to the empty string.
\<close>

definition lowerByte :: "char \<Rightarrow> char" where
  "lowerByte c =
     (if 65 \<le> (of_char c :: nat) \<and> (of_char c :: nat) \<le> 90
      then char_of ((of_char c :: nat) + 32) else c)"

definition ToLower :: "string \<Rightarrow> string" where
  "ToLower s = map lowerByte s"

definition isSpace :: "char \<Rightarrow> bool" where
  "isSpace c = ((of_char c :: nat) \<in> {9, 10, 11, 12, 13, 32})"

definition TrimSpace :: "string \<Rightarrow> string" where
  "TrimSpace s = rev (dropWhile isSpace (rev (dropWhile isSpace s)))"

definition Contains :: "string \<Rightarrow> string \<Rightarrow> bool" where
  "Contains s substr = sublist substr s"

section \<open>Catalog and registry\<close>

text \<open>
  \<open>catalog.Server\<close>, \<open>catalog.Tool\<close>, \<open>catalog.Secret\<close> and \<open>ToolRegistration\<close>
  are declared in other packages; the records below hold the fields the discovery code
  reads.  Free-form values (\<open>any\<close> in Go, decoded from JSON) are values of \<open>json\<close>;
  a Go \<open>map[string]any\<close> is an association list read with \<open>map_of\<close>.  Field names
  are global in a theory, so that \<open>Server.Description\<close> is \<open>ServerDescription\<close>,
  \<open>Secret.Name\<close> is \<open>SecretName\<close>, and the fields \<open>Name\<close> and \<open>Server\<close> of a
  \<open>ServerMatch\<close> are \<open>MatchName\<close> and \<open>MatchServer\<close>.
\<close>

datatype json =
    JNull
  | JBool bool
  | JNumber real
  | JString string
  | JArray "json list"
  | JObject "(string \<times> json) list"

record Tool =
  Name :: string
  Description :: string

record Secret =
  SecretName :: string

record Server =
  Title :: string
  ServerDescription :: string
  Image :: string
  Tools :: "Tool list"
  Secrets :: "Secret list"
  Config :: "json list"
  LongLived :: bool

record ServerMatch =
  MatchName :: string
  MatchServer :: Server
  Score :: int

section \<open>Keyword strategy: scoring\<close>

text \<open>
  Modelled from the spec: \<open>maxInt\<close> is a helper of package \<open>gateway\<close> whose
  declaration is not among the sources used here; the keyword strategy is said to "keep
  the maximum score achieved across all fields", so it is the larger of its two
  arguments.
\<close>

definition maxInt :: "int \<Rightarrow> int \<Rightarrow> int" where
  "maxInt a b = (if a > b then a else b)"

text \<open>
  The body of the loop over the catalog keeps two variables, \<open>match\<close> and \<open>score\<close>.
  Each block of the body is a function on that pair, in the order of the source.
\<close>

type_synonym scoring = "bool \<times> int"

definition checkName :: "string \<Rightarrow> string \<Rightarrow> scoring" where
  "checkName query serverName =
     (let serverNameLower = ToLower serverName in
      if serverNameLower = query then (True, 100)
      else if Contains serverNameLower query then (True, 50)
      else (False, 0))"

definition checkTitle :: "string \<Rightarrow> Server \<Rightarrow> scoring \<Rightarrow> scoring" where
  "checkTitle query server st =
     (if Title server \<noteq> [] then
        (let titleLower = ToLower (Title server) in
         if titleLower = query then (True, maxInt (snd st) 97)
         else if Contains titleLower query then (True, maxInt (snd st) 47)
         else st)
      else st)"

definition checkDescription :: "string \<Rightarrow> Server \<Rightarrow> scoring \<Rightarrow> scoring" where
  "checkDescription query server st =
     (if ServerDescription server \<noteq> [] then
        (let descriptionLower = ToLower (ServerDescription server) in
         if descriptionLower = query then (True, maxInt (snd st) 95)
         else if Contains descriptionLower query then (True, maxInt (snd st) 45)
         else st)
      else st)"

definition checkTool :: "string \<Rightarrow> scoring \<Rightarrow> Tool \<Rightarrow> scoring" where
  "checkTool query st tool =
     (let toolNameLower = ToLower (Name tool);
          toolDescLower = ToLower (Description tool) in
      if toolNameLower = query then (True, maxInt (snd st) 90)
      else if Contains toolNameLower query then (True, maxInt (snd st) 40)
      else if Contains toolDescLower query then (True, maxInt (snd st) 30)
      else st)"

definition checkImage :: "string \<Rightarrow> Server \<Rightarrow> scoring \<Rightarrow> scoring" where
  "checkImage query server st =
     (if Image server \<noteq> [] then
        (let imageLower = ToLower (Image server) in
         if Contains imageLower query then (True, maxInt (snd st) 20) else st)
      else st)"

definition scoreServer :: "string \<Rightarrow> string \<Rightarrow> Server \<Rightarrow> scoring" where
  "scoreServer query serverName server =
     checkImage query server
       (foldl (checkTool query)
          (checkDescription query server
             (checkTitle query server (checkName query serverName)))
          (Tools server))"

text \<open>
  The weights of the specification, as it words them: every field is tested for
  equality with the query and for containing it, each test has a weight, and a server
  has the weights of the tests that succeed.
\<close>

definition fieldTests :: "string \<Rightarrow> string \<Rightarrow> Server \<Rightarrow> (bool \<times> int) list" where
  "fieldTests query serverName server =
     [(ToLower serverName = query, 100), (Contains (ToLower serverName) query, 50),
      (ToLower (Title server) = query, 97), (Contains (ToLower (Title server)) query, 47),
      (ToLower (ServerDescription server) = query, 95),
      (Contains (ToLower (ServerDescription server)) query, 45)]
     @ concat (map (\<lambda>tool.
         [(ToLower (Name tool) = query, 90), (Contains (ToLower (Name tool)) query, 40),
          (Contains (ToLower (Description tool)) query, 30)]) (Tools server))
     @ [(Contains (ToLower (Image server)) query, 20)]"

definition matchingWeights :: "string \<Rightarrow> string \<Rightarrow> Server \<Rightarrow> int list" where
  "matchingWeights query serverName server =
     map snd (filter fst (fieldTests query serverName server))"

section \<open>Errors and requests\<close>

text \<open>
  A Go \<open>error\<close> is a message, or a message wrapping another error
  (\<open>fmt.Errorf("...: %w", err)\<close>).  Every function that returns \<open>(value, error)\<close>
  returns a sum here, with \<open>Inl\<close> for the error.
\<close>

datatype error = Err string | Wrap string error

fun errorString :: "error \<Rightarrow> string" where
  "errorString (Err msg) = msg"
| "errorString (Wrap msg e) = msg @ '': '' @ errorString e"

text \<open>
  A handler receives \<open>req.Params.Arguments\<close>, which may be \<open>nil\<close>, re-encodes it
  with \<open>json.Marshal\<close> and decodes the bytes into its parameter struct with
  \<open>json.Unmarshal\<close>.  The two library calls are a parameter of the model: \<open>decode\<close>
  maps the arguments to the outcome of the pair of calls.  A key that is absent from the
  arguments leaves the field at Go's zero value, the empty string for \<open>Prompt\<close> and
  \<open>0\<close> for \<open>Limit\<close>.
\<close>

record 'a CallToolRequest =
  Arguments :: "'a option"

datatype 'p decoded = MarshalFailed error | UnmarshalFailed error | Decoded 'p

record FindParams =
  Prompt :: string
  Limit :: int

definition parseParams ::
    "('a \<Rightarrow> 'p decoded) \<Rightarrow> 'a CallToolRequest \<Rightarrow> error + 'p" where
  "parseParams decode req =
     (case Arguments req of
        None \<Rightarrow> Inl (Err ''missing arguments'')
      | Some args \<Rightarrow>
          (case decode args of
             MarshalFailed e \<Rightarrow> Inl (Wrap ''failed to marshal arguments'' e)
           | UnmarshalFailed e \<Rightarrow> Inl (Wrap ''failed to parse arguments'' e)
           | Decoded params \<Rightarrow> Inr params))"

section \<open>Keyword strategy: matching, sorting, formatting\<close>

text \<open>
  \<open>configuration.servers\<close> is a Go map.  A \<open>range\<close> over it visits every entry once,
  in an order the language leaves open; the catalog is given as the list of entries in the
  order in which the loop of this call visits them.
\<close>

fun collectMatches ::
    "string \<Rightarrow> (string \<times> Server) list \<Rightarrow> ServerMatch list \<Rightarrow> ServerMatch list" where
  "collectMatches query [] matches = matches"
| "collectMatches query ((serverName, server) # rest) matches =
     (let (match, score) = scoreServer query serverName server in
      collectMatches query rest
        (if match
         then matches @ [\<lparr>MatchName = serverName, MatchServer = server, Score = score\<rparr>]
         else matches))"

text \<open>
  The sort is two nested loops over indices that exchange \<open>matches[i]\<close> and
  \<open>matches[j]\<close> whenever the later one has the larger score.  The bound of the outer
  \<open>range\<close> is \<open>len(matches) - 1\<close>, computed once, and is \<open>-1\<close> for no matches.
\<close>

definition swapAt :: "nat \<Rightarrow> nat \<Rightarrow> 'a list \<Rightarrow> 'a list" where
  "swapAt i j ms = ms[i := ms ! j, j := ms ! i]"

function sortInner :: "nat \<Rightarrow> nat \<Rightarrow> ServerMatch list \<Rightarrow> ServerMatch list" where
  "sortInner i j ms =
     (if j < length ms
      then sortInner i (j + 1) (if Score (ms ! i) < Score (ms ! j) then swapAt i j ms else ms)
      else ms)"
  by pat_completeness auto
termination
  by (relation "measure (\<lambda>(i, j, ms). length ms - j)") (auto simp add: swapAt_def)

function sortOuter :: "int \<Rightarrow> nat \<Rightarrow> ServerMatch list \<Rightarrow> ServerMatch list" where
  "sortOuter n i ms =
     (if int i < n then sortOuter n (i + 1) (sortInner i (i + 1) ms) else ms)"
  by pat_completeness auto
termination
  by (relation "measure (\<lambda>(n, i, ms). nat (n - int i))") auto

definition sortMatches :: "ServerMatch list \<Rightarrow> ServerMatch list" where
  "sortMatches ms = sortOuter (int (length ms) - 1) 0 ms"

definition limitMatches :: "int \<Rightarrow> ServerMatch list \<Rightarrow> ServerMatch list" where
  "limitMatches limit ms = (if int (length ms) > limit then take (nat limit) ms else ms)"

record ServerInfo =
  info_name :: string
  info_description :: "string option"
  required_secrets :: "string list option"
  config_schema :: "json list option"
  long_lived :: bool

definition serverInfo :: "string \<Rightarrow> Server \<Rightarrow> ServerInfo" where
  "serverInfo serverName server =
     \<lparr>info_name = serverName,
      info_description =
        (if ServerDescription server \<noteq> [] then Some (ServerDescription server) else None),
      required_secrets =
        (if length (Secrets server) > 0 then Some (map SecretName (Secrets server)) else None),
      config_schema = (if length (Config server) > 0 then Some (Config server) else None),
      long_lived = LongLived server\<rparr>"

record FindResponse =
  resp_prompt :: string
  total_matches :: int
  servers :: "ServerInfo list"

definition normalizeLimit :: "int \<Rightarrow> int" where
  "normalizeLimit limit = (if limit \<le> 0 then 10 else limit)"

definition keywordMatches :: "(string \<times> Server) list \<Rightarrow> FindParams \<Rightarrow> ServerMatch list" where
  "keywordMatches catalog params =
     (let limit = normalizeLimit (Limit params);
          query = ToLower (TrimSpace (Prompt params));
          matches = collectMatches query catalog [];
          matches = sortMatches matches
      in limitMatches limit matches)"

text \<open>
  The handler renders its response with \<open>json.Marshal\<close>, which may fail on a value
  it cannot encode; \<open>marshal\<close> gives that error, if any.  The result of a call that
  succeeds is the response value whose rendering is returned as text; a \<open>nil\<close> slice
  and an empty slice are both the empty list.
\<close>

definition keywordStrategy ::
    "(string \<times> Server) list \<Rightarrow> ('a \<Rightarrow> FindParams decoded) \<Rightarrow> (FindResponse \<Rightarrow> error option)
       \<Rightarrow> 'a CallToolRequest \<Rightarrow> error + FindResponse" where
  "keywordStrategy catalog decode marshal req =
     (case parseParams decode req of
        Inl e \<Rightarrow> Inl e
      | Inr params \<Rightarrow>
          if Prompt params = [] then Inl (Err ''query parameter is required'')
          else
            (let results =
                   map (\<lambda>m. serverInfo (MatchName m) (MatchServer m))
                     (keywordMatches catalog params);
                 response =
                   \<lparr>resp_prompt = Prompt params,
                    total_matches = int (length results),
                    servers = results\<rparr>
             in (case marshal response of
                   Some e \<Rightarrow> Inl (Wrap ''failed to marshal response'' e)
                 | None \<Rightarrow> Inr response)))"

section \<open>Index client\<close>

text \<open>
  The client holds the \<open>docker run\<close> command, the session and the container name;
  \<open>nil\<close> pointers are \<open>None\<close>.  What the session, the container and the text
  decoder answer is outside the program and is a parameter: \<open>External\<close> for the calls
  of a discovery request, \<open>CloseWorld\<close> for the three steps of one \<open>Close\<close>.
  The mutex and the per-call timeouts are not modelled; a timeout shows as an error of
  the session call.
\<close>

datatype Session = Session nat

datatype Cmd = Cmd nat

record VectorDBClient =
  cmd :: "Cmd option"
  session :: "Session option"
  containerName :: string

record SearchResult =
  ID :: int
  Collection :: string
  Distance :: real
  Metadata :: "(string \<times> json) list"
  VectorLength :: int

record SearchOptions =
  CollectionName :: string
  ExcludeCollections :: "string list"
  Limit :: int

record SearchArgs = SearchOptions +
  Vector :: "real list"

datatype Content = TextContent string | OtherContent

record CallToolResult =
  IsError :: bool
  Content :: "Content list"

datatype warning =
    MissingName int
  | NameNotString json
  | ServerNotFound string
  | MissingTool int
  | NoToolName "(string \<times> json) list"
  | ToolNotFound string

datatype event =
    EmbeddingRequested string
  | ToolCalled string SearchArgs
  | Warning warning

record HttpResponse =
  StatusCode :: int
  Body :: "error + real list list"

record External =
  OPENAI_API_KEY :: string
  httpDo :: "string \<Rightarrow> error + HttpResponse"
  sessionCallTool :: "string \<Rightarrow> SearchArgs \<Rightarrow> error + CallToolResult"
  unmarshalResults :: "string \<Rightarrow> error + SearchResult list"

text \<open>
  Every function that talks to the outside returns, next to its result, the list of
  events it caused: the embedding request, the tool calls sent over the session and the
  warnings written to the log.
\<close>

definition CallTool ::
    "External \<Rightarrow> VectorDBClient \<Rightarrow> string \<Rightarrow> SearchArgs
       \<Rightarrow> (error + CallToolResult) \<times> event list" where
  "CallTool ext c toolName arguments =
     (case session c of
        None \<Rightarrow> (Inl (Err ''session not initialized''), [])
      | Some _ \<Rightarrow>
          (case sessionCallTool ext toolName arguments of
             Inl e \<Rightarrow>
               (Inl (Wrap (''tool call '' @ [CHR 0x27] @ toolName @ [CHR 0x27] @ '' failed'') e),
                [ToolCalled toolName arguments])
           | Inr result \<Rightarrow> (Inr result, [ToolCalled toolName arguments])))"

fun firstText :: "Content list \<Rightarrow> string" where
  "firstText [] = []"
| "firstText (TextContent t # rest) = t"
| "firstText (OtherContent # rest) = firstText rest"

definition SearchVectors ::
    "External \<Rightarrow> VectorDBClient \<Rightarrow> real list \<Rightarrow> SearchOptions option
       \<Rightarrow> (error + SearchResult list) \<times> event list" where
  "SearchVectors ext c vector options =
     (let args =
            (case options of
               None \<Rightarrow>
                 \<lparr>CollectionName = [], ExcludeCollections = [], Limit = 0, Vector = vector\<rparr>
             | Some opts \<Rightarrow>
                 \<lparr>CollectionName = CollectionName opts,
                  ExcludeCollections = ExcludeCollections opts,
                  Limit = Limit opts, Vector = vector\<rparr>);
          (called, events) = CallTool ext c ''search'' args
      in (case called of
            Inl e \<Rightarrow> Inl e
          | Inr result \<Rightarrow>
              if IsError result then Inl (Err ''tool returned error'')
              else if length (Content result) = 0 then Inl (Err ''empty response from search'')
              else
                (let textContent = firstText (Content result) in
                 if textContent = [] then Inl (Err ''no text content in response'')
                 else
                   (case unmarshalResults ext textContent of
                      Inl e \<Rightarrow> Inl (Wrap ''failed to parse search response'' e)
                    | Inr results \<Rightarrow> Inr results)),
          events))"

datatype CloseEvent =
    SessionCloseCalled
  | DockerStopRun string
  | CmdWaitCalled
  | Log string

record CloseWorld =
  sessionCloseResult :: "error option"
  stopRunResult :: "error option"
  cmdWaitResult :: "error option"

definition Close ::
    "CloseWorld \<Rightarrow> VectorDBClient \<Rightarrow> VectorDBClient \<times> error option \<times> CloseEvent list" where
  "Close w c =
     (let (sessionErr, ev0) =
            (case session c of
               None \<Rightarrow> (None, [])
             | Some _ \<Rightarrow> (sessionCloseResult w, [SessionCloseCalled]));
          ev1 = [Log ''close the DBClient''];
          (c1, ev2) =
            (if containerName c \<noteq> [] then
               (c\<lparr>containerName := []\<rparr>,
                [Log (''Stopping container: '' @ containerName c),
                 DockerStopRun (containerName c)]
                @ (case stopRunResult w of
                     None \<Rightarrow> []
                   | Some err \<Rightarrow>
                       [Log (''Container '' @ containerName c @ '' stop result: ''
                             @ errorString err @ '' (this is expected if already stopped)'')]))
             else (c, []));
          (c2, ev3) =
            (if cmd c1 \<noteq> None then
               (c1\<lparr>cmd := None\<rparr>,
                [Log ''Waiting for docker run process to exit'', CmdWaitCalled]
                @ (case cmdWaitResult w of
                     None \<Rightarrow> []
                   | Some waitErr \<Rightarrow>
                       if errorString waitErr \<noteq> ''exec: Wait was already called''
                       then [Log (''Docker run process exited with: '' @ errorString waitErr)]
                       else []))
             else (c1, []))
      in (c2, sessionErr, ev0 @ ev1 @ ev2 @ ev3 @ [Log ''DBClient closed'']))"

text \<open>Calling \<open>Close\<close> repeatedly: one world per call, the results in call order.\<close>

fun CloseRepeatedly ::
    "CloseWorld list \<Rightarrow> VectorDBClient \<Rightarrow> VectorDBClient \<times> (error option \<times> CloseEvent list) list" where
  "CloseRepeatedly [] c = (c, [])"
| "CloseRepeatedly (w # ws) c =
     (let (c', err, evs) = Close w c;
          (c'', rest) = CloseRepeatedly ws c'
      in (c'', (err, evs) # rest))"

section \<open>Embedding strategy\<close>

text \<open>
  \<open>generateEmbedding\<close> reads the API key from the environment, posts the text to the
  embeddings endpoint and takes the first embedding of the decoded reply.  The request
  itself (transport failure or a status code with a decoded body) is \<open>httpDo\<close>.
  Encoding the request body and building the request from constants do not fail.
\<close>

definition generateEmbedding :: "External \<Rightarrow> string \<Rightarrow> (error + real list) \<times> event list" where
  "generateEmbedding ext text =
     (if OPENAI_API_KEY ext = [] then
        (Inl (Err ''OPENAI_API_KEY environment variable not set''), [])
      else
        (case httpDo ext text of
           Inl e \<Rightarrow> Inl (Wrap ''failed to make request'' e)
         | Inr resp \<Rightarrow>
             if StatusCode resp \<noteq> 200 then Inl (Err ''API returned status'')
             else
               (case Body resp of
                  Inl e \<Rightarrow> Inl (Wrap ''failed to decode response'' e)
                | Inr embData \<Rightarrow>
                    (case embData of
                       [] \<Rightarrow> Inl (Err ''no embedding returned'')
                     | embedding # _ \<Rightarrow> Inr embedding)),
         [EmbeddingRequested text]))"

text \<open>
  Modelled from the spec: \<open>Configuration.Find\<close> is a method of package
  \<open>gateway\<close> whose declaration is not among the sources used here.  The
  registry/catalog boundary is given as
  "\<open>findInCatalog(name) \<rightarrow> (ServerSpec, found)\<close>": the lookup is a function to an option,
  \<open>None\<close> for not found, so that a found server always comes with its specification.
  \<open>toolRegistrations\<close> is a Go map read by key.
\<close>

record McpTool = Tool +
  InputSchema :: "json option"

record ToolRegistration =
  ServerName :: string
  RegisteredTool :: McpTool

record ServerConfig =
  Spec :: Server

record Gateway =
  embeddingsClient :: "VectorDBClient option"
  toolRegistrations :: "string \<Rightarrow> ToolRegistration option"
  configurationFind :: "string \<Rightarrow> ServerConfig option"

fun reconcileServers ::
    "(string \<Rightarrow> ServerConfig option) \<Rightarrow> SearchResult list \<Rightarrow> ServerInfo list \<times> event list
       \<Rightarrow> ServerInfo list \<times> event list" where
  "reconcileServers lookup [] acc = acc"
| "reconcileServers lookup (result # rest) (found, logged) =
     (case map_of (Metadata result) ''name'' of
        None \<Rightarrow>
          reconcileServers lookup rest (found, logged @ [Warning (MissingName (ID result))])
      | Some serverNameInterface \<Rightarrow>
          (case serverNameInterface of
             JString serverName \<Rightarrow>
               (case lookup serverName of
                  None \<Rightarrow>
                    reconcileServers lookup rest
                      (found, logged @ [Warning (ServerNotFound serverName)])
                | Some server \<Rightarrow>
                    reconcileServers lookup rest
                      (found @ [serverInfo serverName (Spec server)], logged))
           | _ \<Rightarrow>
               reconcileServers lookup rest
                 (found, logged @ [Warning (NameNotString serverNameInterface)])))"

definition findServersByEmbedding ::
    "External \<Rightarrow> Gateway \<Rightarrow> string \<Rightarrow> int \<Rightarrow> (error + ServerInfo list) \<times> event list" where
  "findServersByEmbedding ext g query limit =
     (case embeddingsClient g of
        None \<Rightarrow> (Inl (Err ''embeddings client not initialized''), [])
      | Some client \<Rightarrow>
          (case generateEmbedding ext query of
             (Inl e, ev1) \<Rightarrow> (Inl (Wrap ''failed to generate embedding'' e), ev1)
           | (Inr queryVector, ev1) \<Rightarrow>
               (case SearchVectors ext client queryVector
                       (Some \<lparr>CollectionName = ''mcp-server-collection'',
                              ExcludeCollections = [], Limit = limit\<rparr>) of
                  (Inl e, ev2) \<Rightarrow> (Inl (Wrap ''failed to search vectors'' e), ev1 @ ev2)
                | (Inr results, ev2) \<Rightarrow>
                    (let (found, logged) =
                           reconcileServers (configurationFind g) results ([], ev1 @ ev2)
                     in (Inr found, logged)))))"

definition embeddingStrategy ::
    "External \<Rightarrow> Gateway \<Rightarrow> ('a \<Rightarrow> FindParams decoded) \<Rightarrow> (FindResponse \<Rightarrow> error option)
       \<Rightarrow> 'a CallToolRequest \<Rightarrow> (error + FindResponse) \<times> event list" where
  "embeddingStrategy ext g decode marshal req =
     (case parseParams decode req of
        Inl e \<Rightarrow> (Inl e, [])
      | Inr params \<Rightarrow>
          if Prompt params = [] then (Inl (Err ''query parameter is required''), [])
          else
            (let limit = normalizeLimit (FindParams.Limit params) in
             (case findServersByEmbedding ext g (Prompt params) limit of
                (Inl e, evs) \<Rightarrow> (Inl (Wrap ''failed to find servers'' e), evs)
              | (Inr results, evs) \<Rightarrow>
                  (let response =
                         \<lparr>resp_prompt = Prompt params,
                          total_matches = int (length results),
                          servers = results\<rparr>
                   in (case marshal response of
                         Some e \<Rightarrow> (Inl (Wrap ''failed to marshal response'' e), evs)
                       | None \<Rightarrow> (Inr response, evs))))))"

section \<open>Tool discovery\<close>

record ToolInfo =
  tool_name :: string
  tool_description :: string
  inputSchema :: "json option"

text \<open>
  The tool name is read from \<open>metadata.tool\<close>, which is either the name itself or an
  object with a \<open>name\<close> key; a failed type assertion leaves the empty string.
\<close>

fun toolNameOf :: "json \<Rightarrow> string" where
  "toolNameOf (JObject v) =
     (case map_of v ''name'' of Some (JString toolName) \<Rightarrow> toolName | _ \<Rightarrow> [])"
| "toolNameOf (JString v) = v"
| "toolNameOf _ = []"

definition toolInfo :: "ToolRegistration \<Rightarrow> ToolInfo" where
  "toolInfo toolReg =
     \<lparr>tool_name = Name (RegisteredTool toolReg),
      tool_description = Description (RegisteredTool toolReg),
      inputSchema = InputSchema (RegisteredTool toolReg)\<rparr>"

fun reconcileTools ::
    "(string \<Rightarrow> ToolRegistration option) \<Rightarrow> SearchResult list \<Rightarrow> ToolInfo list \<times> event list
       \<Rightarrow> ToolInfo list \<times> event list" where
  "reconcileTools registrations [] acc = acc"
| "reconcileTools registrations (result # rest) (tools, logged) =
     (case map_of (Metadata result) ''tool'' of
        None \<Rightarrow>
          reconcileTools registrations rest (tools, logged @ [Warning (MissingTool (ID result))])
      | Some toolNameInterface \<Rightarrow>
          (let toolName = toolNameOf toolNameInterface in
           if toolName = [] then
             reconcileTools registrations rest
               (tools, logged @ [Warning (NoToolName (Metadata result))])
           else
             (case registrations toolName of
                None \<Rightarrow>
                  reconcileTools registrations rest
                    (tools, logged @ [Warning (ToolNotFound toolName)])
              | Some toolReg \<Rightarrow>
                  reconcileTools registrations rest (tools @ [toolInfo toolReg], logged))))"

definition findToolsByEmbedding ::
    "External \<Rightarrow> Gateway \<Rightarrow> string \<Rightarrow> (error + ToolInfo list) \<times> event list" where
  "findToolsByEmbedding ext g prompt =
     (case embeddingsClient g of
        None \<Rightarrow> (Inl (Err ''embeddings client not initialized''), [])
      | Some client \<Rightarrow>
          (case generateEmbedding ext prompt of
             (Inl e, ev1) \<Rightarrow> (Inl (Wrap ''failed to generate embedding'' e), ev1)
           | (Inr queryVector, ev1) \<Rightarrow>
               (case SearchVectors ext client queryVector
                       (Some \<lparr>CollectionName = [],
                              ExcludeCollections = [''mcp-server-collection''],
                              Limit = 5\<rparr>) of
                  (Inl e, ev2) \<Rightarrow> (Inl (Wrap ''failed to search vectors'' e), ev1 @ ev2)
                | (Inr results, ev2) \<Rightarrow>
                    (let (tools, logged) =
                           reconcileTools (toolRegistrations g) results ([], ev1 @ ev2)
                     in (Inr tools, logged)))))"

text \<open>
  The \<open>find-tools\<close> tool: its declaration, with the input schema as the JSON value it
  denotes, and its handler, whose parameter struct has the single field \<open>Prompt\<close>.
\<close>

definition findToolsTool :: McpTool where
  "findToolsTool =
     \<lparr>Name = ''find-tools'',
      Description = ''Analyze a task description and recommend relevant MCP tools that could help accomplish it. Uses AI to intelligently match your needs to available tools.'',
      InputSchema = Some (JObject
        [(''type'', JString ''object''),
         (''properties'', JObject
            [(''prompt'', JObject
               [(''type'', JString ''string''),
                (''description'', JString ''Description of the task or goal you want to accomplish. An AI will analyze this and recommend relevant tools from the available inventory.'')])]),
         (''required'', JArray [JString ''prompt''])])\<rparr>"

fun schemaProperties :: "json option \<Rightarrow> string list" where
  "schemaProperties (Some (JObject schema)) =
     (case map_of schema ''properties'' of Some (JObject props) \<Rightarrow> map fst props | _ \<Rightarrow> [])"
| "schemaProperties _ = []"

definition findToolsHandler ::
    "External \<Rightarrow> Gateway \<Rightarrow> ('a \<Rightarrow> string decoded) \<Rightarrow> (ToolInfo list \<Rightarrow> error option)
       \<Rightarrow> 'a CallToolRequest \<Rightarrow> (error + ToolInfo list) \<times> event list" where
  "findToolsHandler ext g decode marshal req =
     (case parseParams decode req of
        Inl e \<Rightarrow> (Inl e, [])
      | Inr prompt \<Rightarrow>
          if prompt = [] then (Inl (Err ''prompt parameter is required''), [])
          else
            (case findToolsByEmbedding ext g prompt of
               (Inl e, evs) \<Rightarrow> (Inl (Wrap ''failed to find tools'' e), evs)
             | (Inr tools, evs) \<Rightarrow>
                 (case marshal tools of
                    Some e \<Rightarrow> (Inl (Wrap ''failed to marshal response'' e), evs)
                  | None \<Rightarrow> (Inr tools, evs))))"

section \<open>Vocabulary of the properties\<close>

subsection \<open>Keyword strategy\<close>

text \<open>
  A scoring state stands for a list of weights when it has matched exactly if the list is
  non-empty and its score is the largest weight of the list (\<open>0\<close> for none).
\<close>

definition represents :: "scoring \<Rightarrow> int list \<Rightarrow> bool" where
  "represents st ws =
     ((fst st \<longleftrightarrow> ws \<noteq> []) \<and> (\<forall>w \<in> set ws. 0 < w \<and> w \<le> snd st) \<and>
      (if ws = [] then snd st = 0 else snd st \<in> set ws))"

definition weightsOf :: "(bool \<times> int) list \<Rightarrow> int list" where
  "weightsOf tests = map snd (filter fst tests)"

definition toolTests :: "string \<Rightarrow> Tool \<Rightarrow> (bool \<times> int) list" where
  "toolTests q tool =
     [(ToLower (Name tool) = q, 90), (Contains (ToLower (Name tool)) q, 40),
      (Contains (ToLower (Description tool)) q, 30)]"

text \<open>
  The same tests with the optional fields counted only when they are present: a server
  without title, description or image has no such field to match.  For a non-empty query
  this changes nothing, since an empty field neither equals nor contains the query.
\<close>

definition presentFieldTests :: "string \<Rightarrow> string \<Rightarrow> Server \<Rightarrow> (bool \<times> int) list" where
  "presentFieldTests query serverName server =
     [(ToLower serverName = query, 100), (Contains (ToLower serverName) query, 50),
      (Title server \<noteq> [] \<and> ToLower (Title server) = query, 97),
      (Title server \<noteq> [] \<and> Contains (ToLower (Title server)) query, 47),
      (ServerDescription server \<noteq> [] \<and> ToLower (ServerDescription server) = query, 95),
      (ServerDescription server \<noteq> [] \<and> Contains (ToLower (ServerDescription server)) query,
       45)]
     @ concat (map (toolTests query) (Tools server))
     @ [(Image server \<noteq> [] \<and> Contains (ToLower (Image server)) query, 20)]"

definition matchOf :: "string \<Rightarrow> string \<times> Server \<Rightarrow> ServerMatch" where
  "matchOf q e =
     \<lparr>MatchName = fst e, MatchServer = snd e,
      Score = Max (set (matchingWeights q (fst e) (snd e)))\<rparr>"

text \<open>The invariant of the outer loop of the sort: the first \<open>i\<close> places are final.\<close>

definition orderedUpto :: "nat \<Rightarrow> ServerMatch list \<Rightarrow> bool" where
  "orderedUpto i ms =
     (\<forall>a b. a < i \<and> a < b \<and> b < length ms \<longrightarrow> Score (ms ! b) \<le> Score (ms ! a))"

definition nonIncreasing :: "ServerMatch list \<Rightarrow> bool" where
  "nonIncreasing ms = sorted_wrt (\<lambda>a b. Score b \<le> Score a) ms"

text \<open>
  The place of a server in the iteration over the catalog, and the stability the
  specification asks of the sort: two returned matches of equal score stand in the order
  of their places in the catalog.
\<close>

fun catalogIndex :: "string \<Rightarrow> (string \<times> Server) list \<Rightarrow> nat" where
  "catalogIndex serverName [] = 0"
| "catalogIndex serverName ((k, server) # rest) =
     (if k = serverName then 0 else Suc (catalogIndex serverName rest))"

definition tiesInCatalogOrder :: "(string \<times> Server) list \<Rightarrow> ServerMatch list \<Rightarrow> bool" where
  "tiesInCatalogOrder catalog ms =
     (\<forall>j \<in> {..<length ms}. \<forall>i \<in> {..<j}.
        Score (ms ! i) = Score (ms ! j) \<longrightarrow>
        catalogIndex (MatchName (ms ! i)) catalog < catalogIndex (MatchName (ms ! j)) catalog)"

subsection \<open>Example data\<close>

definition plainServer :: Server where
  "plainServer =
     \<lparr>Title = [], ServerDescription = [], Image = [], Tools = [], Secrets = [],
      Config = [], LongLived = False\<rparr>"

definition github :: Server where
  "github = plainServer\<lparr>ServerDescription := ''GitHub API integration''\<rparr>"

definition tieCatalog :: "(string \<times> Server) list" where
  "tieCatalog = [(''git-a'', plainServer), (''git-b'', plainServer), (''git'', plainServer)]"

definition tieParams :: FindParams where
  "tieParams = \<lparr>Prompt = ''git'', Limit = 10\<rparr>"

subsection \<open>Reconciliation\<close>

text \<open>
  The name a hit carries, if its metadata has a name field that is a string; a hit is
  dropped when it carries no such name or the name does not resolve; otherwise it
  yields the entry built from what the name resolves to.  For tools the name is
  \<open>metadata.tool\<close> or \<open>metadata.tool.name\<close>, and the loop also drops an empty name.
\<close>

definition serverHitName :: "SearchResult \<Rightarrow> string option" where
  "serverHitName h =
     (case map_of (Metadata h) ''name'' of Some (JString serverName) \<Rightarrow> Some serverName | _ \<Rightarrow> None)"

definition droppedServerHit :: "(string \<Rightarrow> ServerConfig option) \<Rightarrow> SearchResult \<Rightarrow> bool" where
  "droppedServerHit lookup h =
     (case serverHitName h of None \<Rightarrow> True | Some serverName \<Rightarrow> lookup serverName = None)"

definition serverOfHit :: "(string \<Rightarrow> ServerConfig option) \<Rightarrow> SearchResult \<Rightarrow> ServerInfo option" where
  "serverOfHit lookup h =
     (case serverHitName h of
        None \<Rightarrow> None
      | Some serverName \<Rightarrow>
          (case lookup serverName of
             None \<Rightarrow> None
           | Some server \<Rightarrow> Some (serverInfo serverName (Spec server))))"

definition serverWarning :: "SearchResult \<Rightarrow> warning" where
  "serverWarning h =
     (case map_of (Metadata h) ''name'' of
        None \<Rightarrow> MissingName (ID h)
      | Some (JString serverName) \<Rightarrow> ServerNotFound serverName
      | Some v \<Rightarrow> NameNotString v)"

definition reconciledServers :: "(string \<Rightarrow> ServerConfig option) \<Rightarrow> SearchResult list \<Rightarrow> ServerInfo list" where
  "reconciledServers lookup hits = fst (reconcileServers lookup hits ([], []))"

definition serverWarnings :: "(string \<Rightarrow> ServerConfig option) \<Rightarrow> SearchResult list \<Rightarrow> event list" where
  "serverWarnings lookup hits = snd (reconcileServers lookup hits ([], []))"

definition toolHitName :: "SearchResult \<Rightarrow> string option" where
  "toolHitName h =
     (case map_of (Metadata h) ''tool'' of
        Some (JString toolName) \<Rightarrow> Some toolName
      | Some (JObject v) \<Rightarrow>
          (case map_of v ''name'' of Some (JString toolName) \<Rightarrow> Some toolName | _ \<Rightarrow> None)
      | _ \<Rightarrow> None)"

definition droppedToolHit :: "(string \<Rightarrow> ToolRegistration option) \<Rightarrow> SearchResult \<Rightarrow> bool" where
  "droppedToolHit registrations h =
     (case toolHitName h of None \<Rightarrow> True | Some toolName \<Rightarrow> registrations toolName = None)"

definition toolOfHit :: "(string \<Rightarrow> ToolRegistration option) \<Rightarrow> SearchResult \<Rightarrow> ToolInfo option" where
  "toolOfHit registrations h =
     (case toolHitName h of
        None \<Rightarrow> None
      | Some toolName \<Rightarrow>
          if toolName = [] then None
          else (case registrations toolName of
                  None \<Rightarrow> None
                | Some toolReg \<Rightarrow> Some (toolInfo toolReg)))"

definition toolWarning :: "SearchResult \<Rightarrow> warning" where
  "toolWarning h =
     (case map_of (Metadata h) ''tool'' of
        None \<Rightarrow> MissingTool (ID h)
      | Some v \<Rightarrow>
          if toolNameOf v = [] then NoToolName (Metadata h) else ToolNotFound (toolNameOf v))"

definition reconciledTools :: "(string \<Rightarrow> ToolRegistration option) \<Rightarrow> SearchResult list \<Rightarrow> ToolInfo list" where
  "reconciledTools registrations hits = fst (reconcileTools registrations hits ([], []))"

definition toolWarnings :: "(string \<Rightarrow> ToolRegistration option) \<Rightarrow> SearchResult list \<Rightarrow> event list" where
  "toolWarnings registrations hits = snd (reconcileTools registrations hits ([], []))"

text \<open>One round of each loop, as a function of the hit alone.\<close>

definition serverStep :: "(string \<Rightarrow> ServerConfig option) \<Rightarrow> SearchResult \<Rightarrow> ServerInfo list \<times> event list" where
  "serverStep lookup h =
     (case serverOfHit lookup h of
        None \<Rightarrow> ([], [Warning (serverWarning h)])
      | Some info \<Rightarrow> ([info], []))"

definition toolStep :: "(string \<Rightarrow> ToolRegistration option) \<Rightarrow> SearchResult \<Rightarrow> ToolInfo list \<times> event list" where
  "toolStep registrations h =
     (case toolOfHit registrations h of
        None \<Rightarrow> ([], [Warning (toolWarning h)])
      | Some info \<Rightarrow> ([info], []))"

subsection \<open>Example gateway\<close>

definition weather :: Server where
  "weather = plainServer\<lparr>ServerDescription := ''forecast lookup'', LongLived := True\<rparr>"

definition exampleFind :: "string \<Rightarrow> ServerConfig option" where
  "exampleFind = map_of [(''github'', \<lparr>Spec = github\<rparr>), (''weather'', \<lparr>Spec = weather\<rparr>)]"

definition exampleTool :: McpTool where
  "exampleTool =
     \<lparr>Name = ''create_issue'', Description = ''Create an issue'', InputSchema = None\<rparr>"

definition exampleRegistrations :: "string \<Rightarrow> ToolRegistration option" where
  "exampleRegistrations =
     map_of [(''create_issue'', \<lparr>ServerName = ''github'', RegisteredTool = exampleTool\<rparr>)]"

definition hit :: "int \<Rightarrow> string \<Rightarrow> (string \<times> json) list \<Rightarrow> SearchResult" where
  "hit i collection metadata =
     \<lparr>ID = i, Collection = collection, Distance = 0, Metadata = metadata,
      VectorLength = 1536\<rparr>"

definition exampleServerHits :: "SearchResult list" where
  "exampleServerHits =
     [hit 1 ''mcp-server-collection'' [(''name'', JString ''github'')],
      hit 2 ''mcp-server-collection'' [],
      hit 3 ''mcp-server-collection'' [(''name'', JBool True)],
      hit 4 ''mcp-server-collection'' [(''name'', JString ''gone'')],
      hit 5 ''mcp-server-collection'' [(''name'', JString ''weather'')]]"

definition exampleToolHits :: "SearchResult list" where
  "exampleToolHits =
     [hit 6 ''github'' [(''tool'', JObject [(''name'', JString ''create_issue'')])],
      hit 7 ''github'' [(''tool'', JString ''removed_tool'')],
      hit 8 ''github'' [(''other'', JNull)],
      hit 9 ''github'' [(''tool'', JObject [(''name'', JBool False)])],
      hit 10 ''github'' [(''tool'', JString ''create_issue'')]]"

text \<open>
  An index service for the examples.  Its reply text has one mark per hit it returns,
  after a letter for the kind of search; it returns the first hits, as many as the limit
  asked for (10 when the limit is not positive).
\<close>

definition exampleCallTool :: "string \<Rightarrow> SearchArgs \<Rightarrow> error + CallToolResult" where
  "exampleCallTool toolName args =
     Inr \<lparr>IsError = False,
          Content =
            [TextContent
               ((if CollectionName args = ''mcp-server-collection'' then CHR ''S'' else CHR ''T'')
                # replicate (nat (if Limit args \<le> 0 then 10 else Limit args)) CHR ''+'')]\<rparr>"

definition exampleUnmarshal :: "string \<Rightarrow> error + SearchResult list" where
  "exampleUnmarshal textContent =
     (case textContent of
        [] \<Rightarrow> Inl (Err ''unexpected end of JSON input'')
      | c # marks \<Rightarrow>
          Inr (take (length marks)
                 (if c = CHR ''S'' then exampleServerHits else exampleToolHits)))"

definition exampleExternal :: External where
  "exampleExternal =
     \<lparr>OPENAI_API_KEY = ''sk-example'',
      httpDo = (\<lambda>input. Inr \<lparr>StatusCode = 200, Body = Inr [[0, 1]]\<rparr>),
      sessionCallTool = exampleCallTool,
      unmarshalResults = exampleUnmarshal\<rparr>"

definition exampleClient :: VectorDBClient where
  "exampleClient =
     \<lparr>cmd = Some (Cmd 1), session = Some (Session 1), containerName = ''vector-db-1''\<rparr>"

definition exampleGateway :: Gateway where
  "exampleGateway =
     \<lparr>embeddingsClient = Some exampleClient,
      toolRegistrations = exampleRegistrations,
      configurationFind = exampleFind\<rparr>"

subsection \<open>Requests and limits\<close>

text \<open>
  Modelled from the spec: the search operation of the index service, a separate
  process whose code is not among the sources used here.  Its contract is
  "\<open>search(vector, options{collectionName?, excludeCollections?, limit=10}) \<rightarrow> [SearchHit]\<close>
  ordered by ascending distance", and the client declares the option as
  \<open>Limit int // Maximum number of results (default 10)\<close>: a search that asks for a
  positive \<open>limit\<close> answers with at most \<open>limit\<close> hits.  Nothing is assumed of a
  search that asks for a limit that is not positive, which the client sends on as it is.
  Neither discovery function cuts the list of hits itself.
\<close>

definition searchHonoursLimit :: "External \<Rightarrow> bool" where
  "searchHonoursLimit ext =
     (\<forall>c v opts hits evs.
        0 < Limit opts \<and> SearchVectors ext c v (Some opts) = (Inr hits, evs) \<longrightarrow>
        int (length hits) \<le> Limit opts)"

definition inputErrors :: "error set" where
  "inputErrors =
     {Err ''missing arguments'', Err ''query parameter is required'',
      Err ''prompt parameter is required''}"

subsection \<open>Example requests\<close>

text \<open>
  A decoder for the examples: the arguments are a JSON object given as its list of
  members; an absent or null member leaves the zero value, a member of the wrong type
  fails the decoding.
\<close>

definition decodePrompt :: "(string \<times> json) list \<Rightarrow> error + string" where
  "decodePrompt args =
     (case map_of args ''prompt'' of
        None \<Rightarrow> Inr []
      | Some JNull \<Rightarrow> Inr []
      | Some (JString s) \<Rightarrow> Inr s
      | Some _ \<Rightarrow> Inl (Err ''json: cannot unmarshal into Go struct field .prompt of type string''))"

definition decodeLimit :: "(string \<times> json) list \<Rightarrow> error + int" where
  "decodeLimit args =
     (case map_of args ''limit'' of
        None \<Rightarrow> Inr 0
      | Some JNull \<Rightarrow> Inr 0
      | Some (JNumber r) \<Rightarrow>
          if r = of_int \<lfloor>r\<rfloor> then Inr \<lfloor>r\<rfloor>
          else Inl (Err ''json: cannot unmarshal number into Go struct field .limit of type int'')
      | Some _ \<Rightarrow> Inl (Err ''json: cannot unmarshal into Go struct field .limit of type int''))"

definition exampleDecode :: "(string \<times> json) list \<Rightarrow> FindParams decoded" where
  "exampleDecode args =
     (case (decodePrompt args, decodeLimit args) of
        (Inr p, Inr n) \<Rightarrow> Decoded \<lparr>Prompt = p, Limit = n\<rparr>
      | (Inl e, _) \<Rightarrow> UnmarshalFailed e
      | (_, Inl e) \<Rightarrow> UnmarshalFailed e)"

definition exampleDecodePrompt :: "(string \<times> json) list \<Rightarrow> string decoded" where
  "exampleDecodePrompt args =
     (case decodePrompt args of Inr p \<Rightarrow> Decoded p | Inl e \<Rightarrow> UnmarshalFailed e)"

definition exampleMarshal :: "'r \<Rightarrow> error option" where
  "exampleMarshal response = None"

definition request :: "(string \<times> json) list \<Rightarrow> (string \<times> json) list CallToolRequest" where
  "request args = \<lparr>Arguments = Some args\<rparr>"

definition largeCatalog :: "(string \<times> Server) list" where
  "largeCatalog = map (\<lambda>c. (''git-'' @ [c], plainServer)) ''abcdefghijkl''"

definition serverCount :: "error + FindResponse \<Rightarrow> error + nat" where
  "serverCount r = map_sum id (\<lambda>resp. length (servers resp)) r"

definition matchCounts :: "error + FindResponse \<Rightarrow> error + int \<times> nat" where
  "matchCounts r = map_sum id (\<lambda>resp. (total_matches resp, length (servers resp))) r"

subsection \<open>Example teardown\<close>

text \<open>
  A teardown in which the session reports the exit status of the container process as
  its close error, on every call, and \<open>docker stop\<close> fails as well.
\<close>

definition failingClose :: CloseWorld where
  "failingClose =
     \<lparr>sessionCloseResult = Some (Err ''exit status 1''),
      stopRunResult = Some (Err ''exit status 1''),
      cmdWaitResult = Some (Err ''exec: Wait was already called'')\<rparr>"

section \<open>Properties of the keyword strategy\<close>

declare sortInner.simps [simp del] sortOuter.simps [simp del]

subsection \<open>Scoring\<close>

lemma weightsOf_append: "weightsOf (xs @ ys) = weightsOf xs @ weightsOf ys"
  by (simp add: weightsOf_def)

lemma weightsOf_Cons:
  "weightsOf ((b, w) # xs) = (if b then w # weightsOf xs else weightsOf xs)"
  by (simp add: weightsOf_def)

lemma weightsOf_Nil: "weightsOf [] = []"
  by (simp add: weightsOf_def)

lemma ToLower_Nil: "ToLower [] = []"
  by (simp add: ToLower_def)

lemma Contains_Nil: "q \<noteq> [] \<Longrightarrow> \<not> Contains [] q"
  by (simp add: Contains_def)

lemma Contains_refl: "Contains q q"
  by (simp add: Contains_def)

lemma represents_step:
  assumes "represents st ws" and "w \<in> set vs" and "\<forall>v \<in> set vs. 0 < v \<and> v \<le> w"
  shows "represents (True, maxInt (snd st) w) (ws @ vs)"
proof (cases "ws = []")
  case True
  with assms show ?thesis
    by (auto simp add: represents_def maxInt_def)
next
  case False
  with assms show ?thesis
    by (fastforce simp add: represents_def maxInt_def)
qed

lemma represents_checkName:
  "represents (checkName q n)
     (weightsOf [(ToLower n = q, 100), (Contains (ToLower n) q, 50)])"
  by (auto simp add: checkName_def represents_def weightsOf_Cons weightsOf_Nil
        Contains_refl Let_def)

lemma represents_checkTitle:
  assumes "represents st ws"
  shows "represents (checkTitle q srv st)
     (ws @ weightsOf [(Title srv \<noteq> [] \<and> ToLower (Title srv) = q, 97),
                      (Title srv \<noteq> [] \<and> Contains (ToLower (Title srv)) q, 47)])"
proof (cases "Title srv = []")
  case True
  with assms show ?thesis
    by (simp add: checkTitle_def weightsOf_Cons weightsOf_Nil)
next
  case False
  with assms show ?thesis
    using represents_step[of st ws 97 "[97, 47]"] represents_step[of st ws 47 "[47]"]
    by (auto simp add: checkTitle_def weightsOf_Cons weightsOf_Nil Contains_refl Let_def)
qed

lemma represents_checkDescription:
  assumes "represents st ws"
  shows "represents (checkDescription q srv st)
     (ws @ weightsOf
        [(ServerDescription srv \<noteq> [] \<and> ToLower (ServerDescription srv) = q, 95),
         (ServerDescription srv \<noteq> [] \<and> Contains (ToLower (ServerDescription srv)) q, 45)])"
proof (cases "ServerDescription srv = []")
  case True
  with assms show ?thesis
    by (simp add: checkDescription_def weightsOf_Cons weightsOf_Nil)
next
  case False
  with assms show ?thesis
    using represents_step[of st ws 95 "[95, 45]"] represents_step[of st ws 45 "[45]"]
    by (auto simp add: checkDescription_def weightsOf_Cons weightsOf_Nil Contains_refl Let_def)
qed

lemma represents_checkTool:
  assumes "represents st ws"
  shows "represents (checkTool q st tool) (ws @ weightsOf (toolTests q tool))"
  using assms represents_step[of st ws 90 "[90, 40, 30]"]
    represents_step[of st ws 90 "[90, 40]"] represents_step[of st ws 40 "[40, 30]"]
    represents_step[of st ws 40 "[40]"] represents_step[of st ws 30 "[30]"]
  by (auto simp add: checkTool_def toolTests_def weightsOf_Cons weightsOf_Nil
        Contains_refl Let_def)

lemma represents_checkTools:
  "represents st ws \<Longrightarrow>
   represents (foldl (checkTool q) st tools)
     (ws @ weightsOf (concat (map (toolTests q) tools)))"
proof (induction tools arbitrary: st ws)
  case Nil
  then show ?case by (simp add: weightsOf_Nil)
next
  case (Cons t ts)
  from Cons.IH[OF represents_checkTool[OF Cons.prems, of q t]]
  show ?case by (simp add: weightsOf_append)
qed

lemma represents_checkImage:
  assumes "represents st ws"
  shows "represents (checkImage q srv st)
     (ws @ weightsOf [(Image srv \<noteq> [] \<and> Contains (ToLower (Image srv)) q, 20)])"
proof (cases "Image srv = []")
  case True
  with assms show ?thesis
    by (simp add: checkImage_def weightsOf_Cons weightsOf_Nil)
next
  case False
  with assms show ?thesis
    using represents_step[of st ws 20 "[20]"]
    by (auto simp add: checkImage_def weightsOf_Cons weightsOf_Nil Let_def)
qed

lemma represents_scoreServer_present:
  "represents (scoreServer q n srv) (weightsOf (presentFieldTests q n srv))"
proof -
  have "weightsOf (presentFieldTests q n srv) =
      weightsOf [(ToLower n = q, 100), (Contains (ToLower n) q, 50)]
      @ weightsOf [(Title srv \<noteq> [] \<and> ToLower (Title srv) = q, 97),
                   (Title srv \<noteq> [] \<and> Contains (ToLower (Title srv)) q, 47)]
      @ weightsOf
          [(ServerDescription srv \<noteq> [] \<and> ToLower (ServerDescription srv) = q, 95),
           (ServerDescription srv \<noteq> [] \<and> Contains (ToLower (ServerDescription srv)) q, 45)]
      @ weightsOf (concat (map (toolTests q) (Tools srv)))
      @ weightsOf [(Image srv \<noteq> [] \<and> Contains (ToLower (Image srv)) q, 20)]"
    unfolding presentFieldTests_def weightsOf_def by simp
  moreover have "represents (scoreServer q n srv) \<dots>"
    unfolding scoreServer_def
    using represents_checkImage[OF represents_checkTools[OF
          represents_checkDescription[OF represents_checkTitle[OF represents_checkName]]]]
    by simp
  ultimately show ?thesis by simp
qed

lemma presentFieldTests_eq:
  "q \<noteq> [] \<Longrightarrow> weightsOf (presentFieldTests q n srv) = matchingWeights q n srv"
  unfolding presentFieldTests_def fieldTests_def matchingWeights_def weightsOf_def
    toolTests_def
  by (auto simp add: ToLower_Nil Contains_Nil)

lemma represents_scoreServer:
  assumes "q \<noteq> []"
  shows "represents (scoreServer q n srv) (matchingWeights q n srv)"
  using represents_scoreServer_present[of q n srv] presentFieldTests_eq[OF assms, of n srv]
  by simp

lemma represents_Max:
  assumes "represents st ws"
  shows "(fst st \<longleftrightarrow> ws \<noteq> []) \<and> (fst st \<longrightarrow> snd st = Max (set ws))"
proof -
  have "snd st = Max (set ws)" if "ws \<noteq> []"
  proof -
    from that assms have "snd st \<in> set ws" "\<forall>w \<in> set ws. w \<le> snd st"
      by (auto simp add: represents_def)
    then show ?thesis by (intro Max_eqI[symmetric]) auto
  qed
  with assms show ?thesis by (auto simp add: represents_def)
qed

text \<open>
  For every query, empty or not, the score is the largest weight among the tests that
  succeed on the fields the server has.
\<close>

lemma keyword_score_any_query:
  "scoreServer q n srv =
     (weightsOf (presentFieldTests q n srv) \<noteq> [],
      if weightsOf (presentFieldTests q n srv) = [] then 0
      else Max (set (weightsOf (presentFieldTests q n srv))))"
proof -
  note r = represents_scoreServer_present[of q n srv]
  from represents_Max[OF r] r show ?thesis
    by (cases "scoreServer q n srv") (auto simp add: represents_def)
qed

lemma fieldTests_le_100: "(b, w) \<in> set (fieldTests q n srv) \<Longrightarrow> w \<le> 100"
  unfolding fieldTests_def by auto

lemma matchingWeights_le_100: "w \<in> set (matchingWeights q n srv) \<Longrightarrow> w \<le> 100"
  unfolding matchingWeights_def using fieldTests_le_100 by fastforce

lemma scoreServer_eq:
  assumes "q \<noteq> []"
  shows "scoreServer q n srv =
     (matchingWeights q n srv \<noteq> [],
      if matchingWeights q n srv = [] then 0 else Max (set (matchingWeights q n srv)))"
proof -
  note r = represents_scoreServer[OF assms, of n srv]
  from represents_Max[OF r] r show ?thesis
    by (cases "scoreServer q n srv") (auto simp add: represents_def)
qed

lemma collectMatches_eq:
  assumes "q \<noteq> []"
  shows "collectMatches q catalog acc =
     acc @ map (matchOf q) (filter (\<lambda>e. matchingWeights q (fst e) (snd e) \<noteq> []) catalog)"
proof (induction catalog arbitrary: acc)
  case Nil
  then show ?case by simp
next
  case (Cons e es)
  obtain n srv where e: "e = (n, srv)" by (cases e)
  show ?case
    unfolding e by (simp add: Cons.IH scoreServer_eq[OF assms] matchOf_def)
qed

text \<open>
  C1.  For a non-empty query, the matches the keyword strategy collects are exactly
  the catalog servers with at least one matching field, in catalog order, and the score of
  each is the maximum of the weights of its matching fields (name 100/50, title 97/47,
  description 95/45, tool name 90/40, tool description 30, image 20), not their sum.  In
  particular a server whose name equals the query and whose description contains the
  query scores 100.
\<close>

theorem keyword_score_is_maximum:
  assumes "query \<noteq> []"
  shows "collectMatches query catalog [] =
           map (\<lambda>(serverName, server).
                  \<lparr>MatchName = serverName, MatchServer = server,
                   Score = Max (set (matchingWeights query serverName server))\<rparr>)
             (filter (\<lambda>(serverName, server). matchingWeights query serverName server \<noteq> [])
                catalog)
       \<and> (ToLower serverName = query
              \<and> Contains (ToLower (ServerDescription server)) query
            \<longrightarrow> scoreServer query serverName server = (True, 100))"
proof
  have "matchOf query = (\<lambda>(serverName, server).
                  \<lparr>MatchName = serverName, MatchServer = server,
                   Score = Max (set (matchingWeights query serverName server))\<rparr>)"
    by (auto simp add: matchOf_def fun_eq_iff)
  moreover have "(\<lambda>e. matchingWeights query (fst e) (snd e) \<noteq> []) =
       (\<lambda>(serverName, server). matchingWeights query serverName server \<noteq> [])"
    by (auto simp add: fun_eq_iff)
  ultimately show "collectMatches query catalog [] =
           map (\<lambda>(serverName, server).
                  \<lparr>MatchName = serverName, MatchServer = server,
                   Score = Max (set (matchingWeights query serverName server))\<rparr>)
             (filter (\<lambda>(serverName, server). matchingWeights query serverName server \<noteq> [])
                catalog)"
    using collectMatches_eq[OF assms, of catalog "[]"] by simp
next
  show "ToLower serverName = query \<and> Contains (ToLower (ServerDescription server)) query
            \<longrightarrow> scoreServer query serverName server = (True, 100)"
  proof
    assume "ToLower serverName = query
              \<and> Contains (ToLower (ServerDescription server)) query"
    then have in100: "100 \<in> set (matchingWeights query serverName server)"
      unfolding matchingWeights_def fieldTests_def by simp
    then have "Max (set (matchingWeights query serverName server)) = 100"
      by (intro Max_eqI) (auto simp add: matchingWeights_le_100)
    with in100 show "scoreServer query serverName server = (True, 100)"
      by (auto simp add: scoreServer_eq[OF assms])
  qed
qed

theorem keyword_score_is_maximum_witness:
  "''github'' \<noteq> []
   \<and> matchingWeights ''github'' ''GitHub'' github = [100, 50, 45]
   \<and> map Score (collectMatches ''github'' [(''GitHub'', github)] []) = [100]
   \<and> scoreServer ''github'' ''GitHub'' github = (True, 100)"
proof -
  have q: "''github'' \<noteq> []" by simp
  have w: "matchingWeights ''github'' ''GitHub'' github = [100, 50, 45]" by code_simp
  have l: "ToLower ''GitHub'' = ''github''" by code_simp
  have c: "Contains (ToLower (ServerDescription github)) ''github''" by code_simp
  from keyword_score_is_maximum[OF q, of "[(''GitHub'', github)]" "''GitHub''" github] w l c
  show ?thesis by simp
qed

subsection \<open>Sorting\<close>

lemma length_swapAt: "length (swapAt i j ms) = length ms"
  by (simp add: swapAt_def)

lemma mset_swapAt: "i < length ms \<Longrightarrow> j < length ms \<Longrightarrow> mset (swapAt i j ms) = mset ms"
  by (simp add: swapAt_def mset_swap)

lemma nth_swapAt:
  "i < length ms \<Longrightarrow> j < length ms \<Longrightarrow> k < length ms \<Longrightarrow>
   swapAt i j ms ! k = (if k = j then ms ! i else if k = i then ms ! j else ms ! k)"
  by (simp add: swapAt_def nth_list_update)

lemma length_sortInner: "length (sortInner i j ms) = length ms"
proof (induction i j ms rule: sortInner.induct)
  case (1 i j ms)
  then show ?case
    by (subst sortInner.simps) (simp add: length_swapAt)
qed

lemma mset_sortInner: "i < length ms \<Longrightarrow> mset (sortInner i j ms) = mset ms"
proof (induction i j ms rule: sortInner.induct)
  case (1 i j ms)
  then show ?case
    by (subst sortInner.simps) (simp add: length_swapAt mset_swapAt)
qed

text \<open>The inner loop for place \<open>i\<close> leaves the places before \<open>i\<close> alone.\<close>

lemma sortInner_before:
  "i < j \<Longrightarrow> k < i \<Longrightarrow> sortInner i j ms ! k = ms ! k"
proof (induction i j ms rule: sortInner.induct)
  case (1 i j ms)
  show ?case
  proof (cases "j < length ms")
    case True
    with "1.prems"
    have "(if Score (ms ! i) < Score (ms ! j) then swapAt i j ms else ms) ! k = ms ! k"
      by (simp add: nth_swapAt)
    with True "1.IH" "1.prems" show ?thesis
      by (subst sortInner.simps) simp
  next
    case False
    then show ?thesis by (subst sortInner.simps) simp
  qed
qed

text \<open>When it ends, place \<open>i\<close> holds a score no smaller than any later one.\<close>

lemma sortInner_greatest:
  "i < j \<Longrightarrow>
   \<forall>k. i < k \<and> k < j \<and> k < length ms \<longrightarrow> Score (ms ! k) \<le> Score (ms ! i) \<Longrightarrow>
   i < k \<Longrightarrow> k < length ms \<Longrightarrow>
   Score (sortInner i j ms ! k) \<le> Score (sortInner i j ms ! i)"
proof (induction i j ms rule: sortInner.induct)
  case (1 i j ms)
  show ?case
  proof (cases "j < length ms")
    case True
    define ms' where "ms' = (if Score (ms ! i) < Score (ms ! j) then swapAt i j ms else ms)"
    have len: "length ms' = length ms" by (simp add: ms'_def length_swapAt)
    have inv: "\<forall>k. i < k \<and> k < j + 1 \<and> k < length ms' \<longrightarrow> Score (ms' ! k) \<le> Score (ms' ! i)"
    proof (intro allI impI)
      fix k assume k: "i < k \<and> k < j + 1 \<and> k < length ms'"
      show "Score (ms' ! k) \<le> Score (ms' ! i)"
      proof (cases "Score (ms ! i) < Score (ms ! j)")
        case sw: True
        then have "ms' = swapAt i j ms" by (simp add: ms'_def)
        with k True "1.prems"(1,2) sw len show ?thesis
          by (cases "k = j") (auto simp add: nth_swapAt less_Suc_eq dest!: spec[of _ k])
      next
        case nsw: False
        then have "ms' = ms" by (simp add: ms'_def)
        with k "1.prems"(1,2) nsw show ?thesis
          by (cases "k = j") (auto simp add: less_Suc_eq)
      qed
    qed
    have "Score (sortInner i (j + 1) ms' ! k) \<le> Score (sortInner i (j + 1) ms' ! i)"
      using "1.IH"[OF True _ inv[unfolded ms'_def] "1.prems"(3)] "1.prems" len
      by (simp add: ms'_def)
    with True show ?thesis
      by (subst (1 2) sortInner.simps) (simp add: ms'_def)
  next
    case False
    then have "sortInner i j ms = ms" by (subst sortInner.simps) simp
    with False "1.prems" show ?thesis by simp
  qed
qed

text \<open>What stands at or after place \<open>i\<close> afterwards stood at or after it before.\<close>

lemma sortInner_from:
  assumes "i < length ms" "i \<le> b" "b < length ms"
  shows "\<exists>b'. i \<le> b' \<and> b' < length ms \<and> sortInner i (i + 1) ms ! b = ms ! b'"
proof -
  let ?r = "sortInner i (i + 1) ms"
  have len: "length ?r = length ms" by (rule length_sortInner)
  have "take i ?r = take i ms"
    by (rule nth_equalityI) (use assms len in \<open>auto simp add: sortInner_before\<close>)
  moreover have "mset (take i ?r) + mset (drop i ?r) = mset (take i ms) + mset (drop i ms)"
    using mset_sortInner[OF assms(1), of "i + 1"] by (simp flip: mset_append)
  ultimately have "mset (drop i ?r) = mset (drop i ms)" by simp
  then have "set (drop i ?r) = set (drop i ms)" by (rule mset_eq_setD)
  moreover have "?r ! b \<in> set (drop i ?r)"
    using assms len by (auto simp add: in_set_conv_nth intro!: exI[of _ "b - i"])
  ultimately have "?r ! b \<in> set (drop i ms)" by simp
  then obtain c where "c < length ms - i" "drop i ms ! c = ?r ! b"
    by (auto simp add: in_set_conv_nth)
  then show ?thesis using assms
    by (intro exI[of _ "i + c"]) auto
qed

lemma orderedUpto_step:
  assumes "orderedUpto i ms" "i < length ms"
  shows "orderedUpto (i + 1) (sortInner i (i + 1) ms)"
  unfolding orderedUpto_def
proof (intro allI impI)
  fix a b
  let ?r = "sortInner i (i + 1) ms"
  assume ab: "a < i + 1 \<and> a < b \<and> b < length ?r"
  then have b: "b < length ms" by (simp add: length_sortInner)
  show "Score (?r ! b) \<le> Score (?r ! a)"
  proof (cases "a = i")
    case True
    with ab b show ?thesis
      using sortInner_greatest[of i "i + 1" ms b] by simp
  next
    case False
    with ab have a: "a < i" by simp
    then have ra: "?r ! a = ms ! a" by (simp add: sortInner_before)
    show ?thesis
    proof (cases "b < i")
      case True
      then have "?r ! b = ms ! b" by (simp add: sortInner_before)
      with ra a ab b assms(1) show ?thesis by (simp add: orderedUpto_def)
    next
      case False
      then obtain b' where "i \<le> b'" "b' < length ms" "?r ! b = ms ! b'"
        using sortInner_from[OF assms(2) _ b] by auto
      with ra a assms(1) show ?thesis by (simp add: orderedUpto_def)
    qed
  qed
qed

lemma mset_sortOuter: "n < int (length ms) \<Longrightarrow> mset (sortOuter n i ms) = mset ms"
proof (induction n i ms rule: sortOuter.induct)
  case (1 n i ms)
  then show ?case
    by (subst sortOuter.simps) (simp add: length_sortInner mset_sortInner)
qed

lemma sortOuter_sorted:
  "n = int (length ms) - 1 \<Longrightarrow> orderedUpto i ms \<Longrightarrow> nonIncreasing (sortOuter n i ms)"
proof (induction n i ms rule: sortOuter.induct)
  case (1 n i ms)
  show ?case
  proof (cases "int i < n")
    case True
    with "1.prems" have "i < length ms" by simp
    with True "1.IH" "1.prems" orderedUpto_step[of i ms] show ?thesis
      by (subst sortOuter.simps) (simp add: length_sortInner)
  next
    case False
    with "1.prems" have "nonIncreasing ms"
      by (auto simp add: nonIncreasing_def sorted_wrt_iff_nth_less orderedUpto_def)
    with False show ?thesis by (subst sortOuter.simps) simp
  qed
qed

lemma sortMatches_sorted: "nonIncreasing (sortMatches ms)"
  unfolding sortMatches_def by (rule sortOuter_sorted) (simp_all add: orderedUpto_def)

lemma mset_sortMatches: "mset (sortMatches ms) = mset ms"
  unfolding sortMatches_def by (rule mset_sortOuter) simp

lemma length_sortMatches: "length (sortMatches ms) = length ms"
  using mset_sortMatches[of ms] by (metis size_mset)

lemma nonIncreasing_limitMatches: "nonIncreasing ms \<Longrightarrow> nonIncreasing (limitMatches limit ms)"
  by (simp add: nonIncreasing_def limitMatches_def sorted_wrt_take)


text \<open>
  C2 as stated fails.  With the catalog visited in the order \<open>git-a\<close>, \<open>git-b\<close>,
  \<open>git\<close> and the query \<open>git\<close>, the first two servers tie at 50 and the third scores 100.
  The exchange of places 0 and 2 puts \<open>git-a\<close> behind \<open>git-b\<close>: the output is sorted,
  and its two matches of equal score are not in catalog order.
\<close>

theorem keyword_ties_counterexample:
  "Prompt tieParams \<noteq> []
   \<and> map MatchName (keywordMatches tieCatalog tieParams) = [''git'', ''git-b'', ''git-a'']
   \<and> map Score (keywordMatches tieCatalog tieParams) = [100, 50, 50]
   \<and> \<not> tiesInCatalogOrder tieCatalog (keywordMatches tieCatalog tieParams)"
  by code_simp

text \<open>
  C2, amended.  The matches the keyword strategy returns are sorted by non-increasing
  score, and they are the first matches, up to the limit, of a rearrangement of all the
  matches collected from the catalog.  Nothing is promised about the order of matches of
  equal score.
\<close>

theorem keyword_matches_sorted:
  "nonIncreasing (keywordMatches catalog params)
   \<and> keywordMatches catalog params =
       limitMatches (normalizeLimit (FindParams.Limit params))
         (sortMatches (collectMatches (ToLower (TrimSpace (Prompt params))) catalog []))
   \<and> mset (sortMatches ms) = mset ms"
  by (simp add: keywordMatches_def Let_def nonIncreasing_limitMatches sortMatches_sorted
        mset_sortMatches)

theorem keyword_matches_sorted_witness:
  "nonIncreasing (keywordMatches tieCatalog tieParams)
   \<and> map Score (keywordMatches tieCatalog tieParams) = [100, 50, 50]"
proof -
  have scores: "map Score (keywordMatches tieCatalog tieParams) = [100, 50, 50]"
    by code_simp
  from keyword_matches_sorted[of tieCatalog tieParams "[]"]
  have "nonIncreasing (keywordMatches tieCatalog tieParams)" by (rule conjunct1)
  with scores show ?thesis by (rule conjI[rotated])
qed

section \<open>Properties of the embedding path\<close>

subsection \<open>The reconciliation loops\<close>

lemma reconcileServers_Cons:
  "reconcileServers lookup (h # rest) (found, logged) =
   reconcileServers lookup rest
     (found @ fst (serverStep lookup h), logged @ snd (serverStep lookup h))"
  by (simp add: serverStep_def serverOfHit_def serverHitName_def serverWarning_def
      split: option.splits json.splits)

lemma reconcileServers_acc:
  "reconcileServers lookup hits (found, logged) =
   (found @ concat (map (fst \<circ> serverStep lookup) hits),
    logged @ concat (map (snd \<circ> serverStep lookup) hits))"
proof (induction hits arbitrary: found logged)
  case Nil
  then show ?case by simp
next
  case (Cons h hits)
  show ?case
    by (simp only: reconcileServers_Cons Cons.IH) simp
qed

lemma toolNameOf_toolHitName:
  "map_of (Metadata h) ''tool'' = Some v \<Longrightarrow>
   toolNameOf v = (case toolHitName h of None \<Rightarrow> [] | Some n \<Rightarrow> n)"
  by (cases v) (auto simp add: toolHitName_def split: option.splits json.splits)

lemma reconcileTools_Cons:
  "reconcileTools registrations (h # rest) (tools, logged) =
   reconcileTools registrations rest
     (tools @ fst (toolStep registrations h), logged @ snd (toolStep registrations h))"
proof (cases "map_of (Metadata h) ''tool''")
  case None
  then show ?thesis
    by (simp add: toolStep_def toolOfHit_def toolHitName_def toolWarning_def)
next
  case (Some v)
  note tn = toolNameOf_toolHitName[OF Some]
  from Some show ?thesis
    by (cases "toolHitName h")
       (auto simp add: tn toolStep_def toolOfHit_def toolWarning_def Let_def split: option.splits)
qed

lemma reconcileTools_acc:
  "reconcileTools registrations hits (tools, logged) =
   (tools @ concat (map (fst \<circ> toolStep registrations) hits),
    logged @ concat (map (snd \<circ> toolStep registrations) hits))"
proof (induction hits arbitrary: tools logged)
  case Nil
  then show ?case by simp
next
  case (Cons h hits)
  show ?case
    by (simp only: reconcileTools_Cons Cons.IH) simp
qed

lemma reconciledServers_append:
  "reconciledServers lookup (xs @ ys) = reconciledServers lookup xs @ reconciledServers lookup ys"
  by (simp add: reconciledServers_def reconcileServers_acc)

lemma serverWarnings_append:
  "serverWarnings lookup (xs @ ys) = serverWarnings lookup xs @ serverWarnings lookup ys"
  by (simp add: serverWarnings_def reconcileServers_acc)

lemma reconciledTools_append:
  "reconciledTools regs (xs @ ys) = reconciledTools regs xs @ reconciledTools regs ys"
  by (simp add: reconciledTools_def reconcileTools_acc)

lemma toolWarnings_append:
  "toolWarnings regs (xs @ ys) = toolWarnings regs xs @ toolWarnings regs ys"
  by (simp add: toolWarnings_def reconcileTools_acc)

lemma droppedServerHit_iff: "droppedServerHit lookup h \<longleftrightarrow> serverOfHit lookup h = None"
  by (simp add: droppedServerHit_def serverOfHit_def split: option.splits)

lemma droppedToolHit_imp: "droppedToolHit regs h \<Longrightarrow> toolOfHit regs h = None"
  by (cases "toolHitName h") (simp_all add: droppedToolHit_def toolOfHit_def)

lemma reconcileServers_eq:
  "reconcileServers lookup hits ([], []) =
     (reconciledServers lookup hits, serverWarnings lookup hits)"
  by (simp add: reconciledServers_def serverWarnings_def)

lemma reconcileTools_eq:
  "reconcileTools regs hits ([], []) = (reconciledTools regs hits, toolWarnings regs hits)"
  by (simp add: reconciledTools_def toolWarnings_def)

lemma dropped_server_single:
  "droppedServerHit lookup h \<Longrightarrow>
   reconciledServers lookup [h] = [] \<and> serverWarnings lookup [h] = [Warning (serverWarning h)]"
  by (simp add: reconciledServers_def serverWarnings_def reconcileServers_acc serverStep_def
        droppedServerHit_iff)

lemma dropped_tool_single:
  "droppedToolHit regs h \<Longrightarrow>
   reconciledTools regs [h] = [] \<and> toolWarnings regs [h] = [Warning (toolWarning h)]"
  by (simp add: reconciledTools_def toolWarnings_def reconcileTools_acc toolStep_def
        droppedToolHit_imp)

lemma reconciledServers_map_filter:
  "reconciledServers lookup hits =
     map (the \<circ> serverOfHit lookup) (filter (\<lambda>h. serverOfHit lookup h \<noteq> None) hits)"
  by (induction hits)
     (auto simp add: reconciledServers_def reconcileServers_acc serverStep_def split: option.splits)

lemma reconciledTools_map_filter:
  "reconciledTools regs hits =
     map (the \<circ> toolOfHit regs) (filter (\<lambda>h. toolOfHit regs h \<noteq> None) hits)"
  by (induction hits)
     (auto simp add: reconciledTools_def reconcileTools_acc toolStep_def split: option.splits)

lemma findServersByEmbedding_success:
  assumes "embeddingsClient g = Some c"
      and "generateEmbedding ext q = (Inr v, ev1)"
      and "SearchVectors ext c v (Some \<lparr>CollectionName = ''mcp-server-collection'',
              ExcludeCollections = [], Limit = limit\<rparr>) = (Inr hits, ev2)"
  shows "findServersByEmbedding ext g q limit =
     (Inr (reconciledServers (configurationFind g) hits),
      ev1 @ ev2 @ serverWarnings (configurationFind g) hits)"
  using assms
  by (simp add: findServersByEmbedding_def reconcileServers_acc reconciledServers_def
        serverWarnings_def)

lemma findToolsByEmbedding_success:
  assumes "embeddingsClient g = Some c"
      and "generateEmbedding ext q = (Inr v, ev1)"
      and "SearchVectors ext c v (Some \<lparr>CollectionName = [],
              ExcludeCollections = [''mcp-server-collection''], Limit = 5\<rparr>) = (Inr hits, ev2)"
  shows "findToolsByEmbedding ext g q =
     (Inr (reconciledTools (toolRegistrations g) hits),
      ev1 @ ev2 @ toolWarnings (toolRegistrations g) hits)"
  using assms
  by (simp add: findToolsByEmbedding_def reconcileTools_acc reconciledTools_def
        toolWarnings_def)

text \<open>Conversely, a call that succeeds went through a search that succeeded.\<close>

lemma findServersByEmbedding_Inr:
  assumes "findServersByEmbedding ext g q limit = (Inr found, evs)"
  shows "\<exists>c v ev1 hits ev2. embeddingsClient g = Some c
      \<and> generateEmbedding ext q = (Inr v, ev1)
      \<and> SearchVectors ext c v (Some \<lparr>CollectionName = ''mcp-server-collection'',
              ExcludeCollections = [], Limit = limit\<rparr>) = (Inr hits, ev2)
      \<and> found = reconciledServers (configurationFind g) hits
      \<and> evs = ev1 @ ev2 @ serverWarnings (configurationFind g) hits"
  using assms
  by (auto simp add: findServersByEmbedding_def reconcileServers_acc reconciledServers_def
        serverWarnings_def split: option.splits sum.splits prod.splits)

lemma findToolsByEmbedding_Inr:
  assumes "findToolsByEmbedding ext g q = (Inr tools, evs)"
  shows "\<exists>c v ev1 hits ev2. embeddingsClient g = Some c
      \<and> generateEmbedding ext q = (Inr v, ev1)
      \<and> SearchVectors ext c v (Some \<lparr>CollectionName = [],
              ExcludeCollections = [''mcp-server-collection''], Limit = 5\<rparr>) = (Inr hits, ev2)
      \<and> tools = reconciledTools (toolRegistrations g) hits
      \<and> evs = ev1 @ ev2 @ toolWarnings (toolRegistrations g) hits"
  using assms
  by (auto simp add: findToolsByEmbedding_def reconcileTools_acc reconciledTools_def
        toolWarnings_def split: option.splits sum.splits prod.splits)

text \<open>
  C3.  In both reconciliation loops a hit whose metadata lacks the name field, whose
  name is not a string, or whose name does not resolve in the catalog (the tool registry
  for tool discovery) adds nothing to the result and one warning to the log, and the hits
  before and after it are processed as they would be without it.  Whenever the embedding
  and the search succeed the discovery call succeeds, whatever the hits are.
\<close>

theorem dropped_hits_are_skipped:
  "(droppedServerHit lookup h \<longrightarrow>
      reconcileServers lookup (before @ h # after) ([], []) =
        (reconciledServers lookup before @ reconciledServers lookup after,
         serverWarnings lookup before @ [Warning (serverWarning h)]
           @ serverWarnings lookup after))
   \<and> (droppedToolHit registrations h \<longrightarrow>
      reconcileTools registrations (before @ h # after) ([], []) =
        (reconciledTools registrations before @ reconciledTools registrations after,
         toolWarnings registrations before @ [Warning (toolWarning h)]
           @ toolWarnings registrations after))
   \<and> (embeddingsClient g = Some c \<and> generateEmbedding ext query = (Inr v, evEmbed)
        \<and> SearchVectors ext c v
             (Some \<lparr>CollectionName = ''mcp-server-collection'', ExcludeCollections = [],
                    Limit = limit\<rparr>) = (Inr serverHits, evSearch) \<longrightarrow>
      findServersByEmbedding ext g query limit =
        (Inr (reconciledServers (configurationFind g) serverHits),
         evEmbed @ evSearch @ serverWarnings (configurationFind g) serverHits))
   \<and> (embeddingsClient g = Some c \<and> generateEmbedding ext query = (Inr v, evEmbed)
        \<and> SearchVectors ext c v
             (Some \<lparr>CollectionName = [], ExcludeCollections = [''mcp-server-collection''],
                    Limit = 5\<rparr>) = (Inr toolHits, evSearch') \<longrightarrow>
      findToolsByEmbedding ext g query =
        (Inr (reconciledTools (toolRegistrations g) toolHits),
         evEmbed @ evSearch' @ toolWarnings (toolRegistrations g) toolHits))"
proof (intro conjI impI)
  assume d: "droppedServerHit lookup h"
  have "before @ h # after = before @ [h] @ after" by simp
  then show "reconcileServers lookup (before @ h # after) ([], []) =
        (reconciledServers lookup before @ reconciledServers lookup after,
         serverWarnings lookup before @ [Warning (serverWarning h)]
           @ serverWarnings lookup after)"
    using dropped_server_single[OF d]
    by (simp only: reconcileServers_eq reconciledServers_append serverWarnings_append) simp
next
  assume d: "droppedToolHit registrations h"
  have "before @ h # after = before @ [h] @ after" by simp
  then show "reconcileTools registrations (before @ h # after) ([], []) =
        (reconciledTools registrations before @ reconciledTools registrations after,
         toolWarnings registrations before @ [Warning (toolWarning h)]
           @ toolWarnings registrations after)"
    using dropped_tool_single[OF d]
    by (simp only: reconcileTools_eq reconciledTools_append toolWarnings_append) simp
next
  assume "embeddingsClient g = Some c \<and> generateEmbedding ext query = (Inr v, evEmbed)
        \<and> SearchVectors ext c v
             (Some \<lparr>CollectionName = ''mcp-server-collection'', ExcludeCollections = [],
                    Limit = limit\<rparr>) = (Inr serverHits, evSearch)"
  then show "findServersByEmbedding ext g query limit =
        (Inr (reconciledServers (configurationFind g) serverHits),
         evEmbed @ evSearch @ serverWarnings (configurationFind g) serverHits)"
    by (intro findServersByEmbedding_success) blast+
next
  assume "embeddingsClient g = Some c \<and> generateEmbedding ext query = (Inr v, evEmbed)
        \<and> SearchVectors ext c v
             (Some \<lparr>CollectionName = [], ExcludeCollections = [''mcp-server-collection''],
                    Limit = 5\<rparr>) = (Inr toolHits, evSearch')"
  then show "findToolsByEmbedding ext g query =
        (Inr (reconciledTools (toolRegistrations g) toolHits),
         evEmbed @ evSearch' @ toolWarnings (toolRegistrations g) toolHits)"
    by (intro findToolsByEmbedding_success) blast+
qed

theorem dropped_hits_are_skipped_witness:
  "droppedServerHit exampleFind (hit 2 ''mcp-server-collection'' [])
   \<and> reconcileServers exampleFind exampleServerHits ([], []) =
       ([serverInfo ''github'' github, serverInfo ''weather'' weather],
        [Warning (MissingName 2), Warning (NameNotString (JBool True)),
         Warning (ServerNotFound ''gone'')])
   \<and> droppedToolHit exampleRegistrations (hit 7 ''github'' [(''tool'', JString ''removed_tool'')])
   \<and> reconcileTools exampleRegistrations exampleToolHits ([], []) =
       ([toolInfo \<lparr>ServerName = ''github'', RegisteredTool = exampleTool\<rparr>,
         toolInfo \<lparr>ServerName = ''github'', RegisteredTool = exampleTool\<rparr>],
        [Warning (ToolNotFound ''removed_tool''), Warning (MissingTool 8),
         Warning (NoToolName [(''tool'', JObject [(''name'', JBool False)])])])
   \<and> fst (findServersByEmbedding exampleExternal exampleGateway ''source control'' 10) =
       Inr [serverInfo ''github'' github, serverInfo ''weather'' weather]
   \<and> fst (findToolsByEmbedding exampleExternal exampleGateway ''file a bug'') =
       Inr [toolInfo \<lparr>ServerName = ''github'', RegisteredTool = exampleTool\<rparr>,
            toolInfo \<lparr>ServerName = ''github'', RegisteredTool = exampleTool\<rparr>]"
proof -
  let ?h2 = "hit 2 ''mcp-server-collection'' []"
  let ?h7 = "hit 7 ''github'' [(''tool'', JString ''removed_tool'')]"
  let ?sBefore = "[hit 1 ''mcp-server-collection'' [(''name'', JString ''github'')]]"
  let ?sAfter = "[hit 3 ''mcp-server-collection'' [(''name'', JBool True)],
      hit 4 ''mcp-server-collection'' [(''name'', JString ''gone'')],
      hit 5 ''mcp-server-collection'' [(''name'', JString ''weather'')]]"
  let ?tBefore = "[hit 6 ''github'' [(''tool'', JObject [(''name'', JString ''create_issue'')])]]"
  let ?tAfter = "[hit 8 ''github'' [(''other'', JNull)],
      hit 9 ''github'' [(''tool'', JObject [(''name'', JBool False)])],
      hit 10 ''github'' [(''tool'', JString ''create_issue'')]]"
  let ?sOpts = "\<lparr>CollectionName = ''mcp-server-collection'', ExcludeCollections = [],
                    Limit = 10\<rparr>"
  let ?tOpts = "\<lparr>CollectionName = [], ExcludeCollections = [''mcp-server-collection''],
                    Limit = 5\<rparr>"
  note t1 = dropped_hits_are_skipped[where lookup = exampleFind and h = ?h2
      and before = ?sBefore and after = ?sAfter, THEN conjunct1]
  note t2 = dropped_hits_are_skipped[where registrations = exampleRegistrations and h = ?h7
      and before = ?tBefore and after = ?tAfter, THEN conjunct2, THEN conjunct1]
  note t3 = dropped_hits_are_skipped[where g = exampleGateway and ext = exampleExternal
      and c = exampleClient and query = "''source control''" and v = "[0, 1]"
      and evEmbed = "[EmbeddingRequested ''source control'']" and limit = 10
      and serverHits = exampleServerHits
      and evSearch = "[ToolCalled ''search'' \<lparr>CollectionName = ''mcp-server-collection'',
                    ExcludeCollections = [], Limit = 10, Vector = [0, 1]\<rparr>]",
      THEN conjunct2, THEN conjunct2, THEN conjunct1]
  note t4 = dropped_hits_are_skipped[where g = exampleGateway and ext = exampleExternal
      and c = exampleClient and query = "''file a bug''" and v = "[0, 1]"
      and evEmbed = "[EmbeddingRequested ''file a bug'']"
      and toolHits = exampleToolHits
      and evSearch' = "[ToolCalled ''search'' \<lparr>CollectionName = [],
                    ExcludeCollections = [''mcp-server-collection''], Limit = 5,
                    Vector = [0, 1]\<rparr>]",
      THEN conjunct2, THEN conjunct2, THEN conjunct2]
  have ds: "droppedServerHit exampleFind ?h2" by code_simp
  have dt: "droppedToolHit exampleRegistrations ?h7" by code_simp
  have sh: "exampleServerHits = ?sBefore @ ?h2 # ?sAfter" by (simp add: exampleServerHits_def)
  have th: "exampleToolHits = ?tBefore @ ?h7 # ?tAfter" by (simp add: exampleToolHits_def)
  have s: "reconciledServers exampleFind ?sBefore = [serverInfo ''github'' github]"
      "reconciledServers exampleFind ?sAfter = [serverInfo ''weather'' weather]"
      "serverWarnings exampleFind ?sBefore = []"
      "serverWarnings exampleFind ?sAfter =
         [Warning (NameNotString (JBool True)), Warning (ServerNotFound ''gone'')]"
      "serverWarning ?h2 = MissingName 2"
    by code_simp+
  have t: "reconciledTools exampleRegistrations ?tBefore =
         [toolInfo \<lparr>ServerName = ''github'', RegisteredTool = exampleTool\<rparr>]"
      "reconciledTools exampleRegistrations ?tAfter =
         [toolInfo \<lparr>ServerName = ''github'', RegisteredTool = exampleTool\<rparr>]"
      "toolWarnings exampleRegistrations ?tBefore = []"
      "toolWarnings exampleRegistrations ?tAfter =
         [Warning (MissingTool 8),
          Warning (NoToolName [(''tool'', JObject [(''name'', JBool False)])])]"
      "toolWarning ?h7 = ToolNotFound ''removed_tool''"
    by code_simp+
  have c: "embeddingsClient exampleGateway = Some exampleClient"
    by (simp add: exampleGateway_def)
  have g1: "generateEmbedding exampleExternal ''source control'' =
      (Inr [0, 1], [EmbeddingRequested ''source control''])"
    by (simp add: generateEmbedding_def exampleExternal_def)
  have g2: "generateEmbedding exampleExternal ''file a bug'' =
      (Inr [0, 1], [EmbeddingRequested ''file a bug''])"
    by (simp add: generateEmbedding_def exampleExternal_def)
  have v1: "SearchVectors exampleExternal exampleClient [0, 1] (Some ?sOpts) =
      (Inr exampleServerHits,
       [ToolCalled ''search'' \<lparr>CollectionName = ''mcp-server-collection'',
                    ExcludeCollections = [], Limit = 10, Vector = [0, 1]\<rparr>])"
    by (simp add: SearchVectors_def CallTool_def exampleExternal_def exampleClient_def
        exampleCallTool_def exampleUnmarshal_def exampleServerHits_def)
  have v2: "SearchVectors exampleExternal exampleClient [0, 1] (Some ?tOpts) =
      (Inr exampleToolHits,
       [ToolCalled ''search'' \<lparr>CollectionName = [],
                    ExcludeCollections = [''mcp-server-collection''], Limit = 5,
                    Vector = [0, 1]\<rparr>])"
    by (simp add: SearchVectors_def CallTool_def exampleExternal_def exampleClient_def
        exampleCallTool_def exampleUnmarshal_def exampleToolHits_def)
  have r1: "reconcileServers exampleFind exampleServerHits ([], []) =
       ([serverInfo ''github'' github, serverInfo ''weather'' weather],
        [Warning (MissingName 2), Warning (NameNotString (JBool True)),
         Warning (ServerNotFound ''gone'')])"
    using t1 ds by (simp only: sh s) simp
  have r2: "reconcileTools exampleRegistrations exampleToolHits ([], []) =
       ([toolInfo \<lparr>ServerName = ''github'', RegisteredTool = exampleTool\<rparr>,
         toolInfo \<lparr>ServerName = ''github'', RegisteredTool = exampleTool\<rparr>],
        [Warning (ToolNotFound ''removed_tool''), Warning (MissingTool 8),
         Warning (NoToolName [(''tool'', JObject [(''name'', JBool False)])])])"
    using t2 dt by (simp only: th t) simp
  have r3: "fst (findServersByEmbedding exampleExternal exampleGateway ''source control'' 10) =
       Inr [serverInfo ''github'' github, serverInfo ''weather'' weather]"
    using t3 c g1 v1 r1 by (simp add: reconciledServers_def exampleGateway_def)
  have r4: "fst (findToolsByEmbedding exampleExternal exampleGateway ''file a bug'') =
       Inr [toolInfo \<lparr>ServerName = ''github'', RegisteredTool = exampleTool\<rparr>,
            toolInfo \<lparr>ServerName = ''github'', RegisteredTool = exampleTool\<rparr>]"
    using t4 c g2 v2 r2 by (simp add: reconciledTools_def exampleGateway_def)
  from ds r1 dt r2 r3 r4 show ?thesis by blast
qed

section \<open>Properties of the handlers\<close>


lemma length_reconciledTools: "length (reconciledTools regs hits) \<le> length hits"
  by (simp add: reconciledTools_map_filter)


lemma keywordStrategy_Inr:
  assumes "keywordStrategy catalog decode marshal req = Inr resp"
  shows "\<exists>params. parseParams decode req = Inr params \<and> Prompt params \<noteq> []
      \<and> resp = \<lparr>resp_prompt = Prompt params,
                 total_matches = int (length (keywordMatches catalog params)),
                 servers = map (\<lambda>m. serverInfo (MatchName m) (MatchServer m))
                             (keywordMatches catalog params)\<rparr>"
  using assms
  by (auto simp add: keywordStrategy_def Let_def split: sum.splits if_splits option.splits)

lemma embeddingStrategy_Inr:
  assumes "embeddingStrategy ext g decode marshal req = (Inr resp, evs)"
  shows "\<exists>params found. parseParams decode req = Inr params \<and> Prompt params \<noteq> []
      \<and> findServersByEmbedding ext g (Prompt params) (normalizeLimit (FindParams.Limit params))
           = (Inr found, evs)
      \<and> resp = \<lparr>resp_prompt = Prompt params, total_matches = int (length found),
                 servers = found\<rparr>"
  using assms
  by (auto simp add: embeddingStrategy_def Let_def
      split: sum.splits if_splits prod.splits option.splits)

lemma findToolsHandler_Inr:
  assumes "findToolsHandler ext g decode marshal req = (Inr tools, evs)"
  shows "\<exists>prompt. parseParams decode req = Inr prompt \<and> prompt \<noteq> []
      \<and> findToolsByEmbedding ext g prompt = (Inr tools, evs)"
  using assms
  by (auto simp add: findToolsHandler_def
      split: sum.splits if_splits prod.splits option.splits)


text \<open>
  C6.  A call of either find-servers handler or of the find-tools handler whose
  arguments are missing, or whose decoded prompt is empty (as it is when the prompt key
  is absent), fails with an input error, before any embedding request, search or
  warning: the list of events is empty and no result is returned.
\<close>

theorem empty_prompt_is_input_error:
  "((Arguments req = None
      \<or> (\<exists>args params. Arguments req = Some args \<and> decode args = Decoded params
            \<and> Prompt params = [])) \<longrightarrow>
      (\<exists>e \<in> inputErrors.
          keywordStrategy catalog decode marshal req = Inl e
        \<and> embeddingStrategy ext g decode marshal req = (Inl e, [])))
   \<and> ((Arguments req = None
      \<or> (\<exists>args. Arguments req = Some args \<and> decodeTools args = Decoded [])) \<longrightarrow>
      (\<exists>e \<in> inputErrors. findToolsHandler ext g decodeTools marshalTools req = (Inl e, [])))"
  by (auto simp add: inputErrors_def keywordStrategy_def embeddingStrategy_def
      findToolsHandler_def parseParams_def)

theorem empty_prompt_is_input_error_witness:
  "Arguments (request [(''limit'', JNumber 3)]) = Some [(''limit'', JNumber 3)]
   \<and> exampleDecode [(''limit'', JNumber 3)] = Decoded \<lparr>Prompt = [], Limit = 3\<rparr>
   \<and> keywordStrategy largeCatalog exampleDecode exampleMarshal (request [(''limit'', JNumber 3)]) =
       Inl (Err ''query parameter is required'')
   \<and> embeddingStrategy exampleExternal exampleGateway exampleDecode exampleMarshal
         (request [(''limit'', JNumber 3)]) = (Inl (Err ''query parameter is required''), [])
   \<and> findToolsHandler exampleExternal exampleGateway exampleDecodePrompt exampleMarshal
         (request [(''prompt'', JString [])]) = (Inl (Err ''prompt parameter is required''), [])
   \<and> findToolsHandler exampleExternal exampleGateway exampleDecodePrompt exampleMarshal
         \<lparr>Arguments = None\<rparr> = (Inl (Err ''missing arguments''), [])"
proof -
  let ?args = "[(''limit'', JNumber 3)]"
  let ?req = "request ?args"
  let ?targs = "[(''prompt'', JString [])]"
  have a: "Arguments ?req = Some ?args" by (simp add: request_def)
  have d: "exampleDecode ?args = Decoded \<lparr>Prompt = [], Limit = 3\<rparr>" by code_simp
  have ta: "Arguments (request ?targs) = Some ?targs" by (simp add: request_def)
  have td: "exampleDecodePrompt ?targs = Decoded []" by code_simp
  from a d have hyp: "Arguments ?req = None
      \<or> (\<exists>args params. Arguments ?req = Some args \<and> exampleDecode args = Decoded params
            \<and> Prompt params = [])"
    by auto
  from ta td have thyp: "Arguments (request ?targs) = None
      \<or> (\<exists>args. Arguments (request ?targs) = Some args
            \<and> exampleDecodePrompt args = Decoded [])"
    by auto
  note t = empty_prompt_is_input_error[where req = ?req and decode = exampleDecode and marshal = exampleMarshal
      and catalog = largeCatalog and ext = exampleExternal and g = exampleGateway,
      THEN conjunct1, rule_format, OF hyp]
  note t' = empty_prompt_is_input_error[where req = "request ?targs"
      and decodeTools = exampleDecodePrompt and marshalTools = exampleMarshal and ext = exampleExternal and g = exampleGateway,
      THEN conjunct2, rule_format, OF thyp]
  have k: "keywordStrategy largeCatalog exampleDecode exampleMarshal ?req =
       Inl (Err ''query parameter is required'')"
    by (simp add: keywordStrategy_def parseParams_def a d)
  with t have e: "embeddingStrategy exampleExternal exampleGateway exampleDecode exampleMarshal ?req =
       (Inl (Err ''query parameter is required''), [])"
    by auto
  have "fst (findToolsHandler exampleExternal exampleGateway exampleDecodePrompt exampleMarshal
         (request ?targs)) = Inl (Err ''prompt parameter is required'')"
    by (simp add: findToolsHandler_def parseParams_def ta td)
  with t' have f: "findToolsHandler exampleExternal exampleGateway exampleDecodePrompt exampleMarshal
         (request ?targs) = (Inl (Err ''prompt parameter is required''), [])"
    by auto
  have n: "findToolsHandler exampleExternal exampleGateway exampleDecodePrompt exampleMarshal
         \<lparr>Arguments = None\<rparr> = (Inl (Err ''missing arguments''), [])"
    by (simp add: findToolsHandler_def parseParams_def)
  from a d k e f n show ?thesis by blast
qed

text \<open>
  C10.  In every response of either find-servers handler, \<open>total_matches\<close> is the
  length of the list of servers of that response, which is the number left after the cut
  at the limit and after the hits that do not reconcile are dropped.
\<close>

theorem total_matches_is_length_of_servers:
  "(keywordStrategy catalog decode marshal req = Inr resp \<longrightarrow>
      total_matches resp = int (length (servers resp)))
   \<and> (embeddingStrategy ext g decode marshal req = (Inr resp', evs) \<longrightarrow>
      total_matches resp' = int (length (servers resp')))"
proof (intro conjI impI)
  assume "keywordStrategy catalog decode marshal req = Inr resp"
  from keywordStrategy_Inr[OF this] show "total_matches resp = int (length (servers resp))"
    by auto
next
  assume "embeddingStrategy ext g decode marshal req = (Inr resp', evs)"
  from embeddingStrategy_Inr[OF this]
  show "total_matches resp' = int (length (servers resp'))"
    by auto
qed

theorem total_matches_is_length_of_servers_witness:
  "length (collectMatches ''git'' largeCatalog []) = 12
   \<and> matchCounts (keywordStrategy largeCatalog exampleDecode exampleMarshal
        (request [(''prompt'', JString ''git''), (''limit'', JNumber 3)])) = Inr (3, 3)
   \<and> length exampleServerHits = 5
   \<and> matchCounts (fst (embeddingStrategy exampleExternal exampleGateway exampleDecode exampleMarshal
        (request [(''prompt'', JString ''git'')]))) = Inr (2, 2)"
proof -
  let ?req3 = "request [(''prompt'', JString ''git''), (''limit'', JNumber 3)]"
  let ?req = "request [(''prompt'', JString ''git'')]"
  have c: "length (collectMatches ''git'' largeCatalog []) = 12" by code_simp
  have h: "length exampleServerHits = 5" by (simp add: exampleServerHits_def)
  have k: "serverCount (keywordStrategy largeCatalog exampleDecode exampleMarshal ?req3) = Inr 3"
    by code_simp
  have e: "serverCount (fst (embeddingStrategy exampleExternal exampleGateway exampleDecode exampleMarshal
        ?req)) = Inr 2"
    by code_simp
  obtain resp where r: "keywordStrategy largeCatalog exampleDecode exampleMarshal ?req3 = Inr resp"
    and l: "length (servers resp) = 3"
    using k by (cases "keywordStrategy largeCatalog exampleDecode exampleMarshal ?req3")
       (auto simp add: serverCount_def)
  obtain resp' evs where
    r': "embeddingStrategy exampleExternal exampleGateway exampleDecode exampleMarshal ?req = (Inr resp', evs)"
    and l': "length (servers resp') = 2"
    using e
    by (cases "embeddingStrategy exampleExternal exampleGateway exampleDecode exampleMarshal ?req";
        cases "fst (embeddingStrategy exampleExternal exampleGateway exampleDecode exampleMarshal ?req)")
       (auto simp add: serverCount_def)
  note t = total_matches_is_length_of_servers[where catalog = largeCatalog
      and decode = exampleDecode and marshal = exampleMarshal and req = ?req3 and resp = resp,
      THEN conjunct1, rule_format, OF r]
  note t' = total_matches_is_length_of_servers[where ext = exampleExternal
      and g = exampleGateway and decode = exampleDecode and marshal = exampleMarshal and req = ?req and resp' = resp'
      and evs = evs, THEN conjunct2, rule_format, OF r']
  from t l r have "matchCounts (keywordStrategy largeCatalog exampleDecode exampleMarshal ?req3) = Inr (3, 3)"
    by (simp add: matchCounts_def)
  moreover from t' l' r'
  have "matchCounts (fst (embeddingStrategy exampleExternal exampleGateway exampleDecode exampleMarshal ?req))
          = Inr (2, 2)"
    by (simp add: matchCounts_def)
  ultimately show ?thesis using c h by simp
qed

lemma reconciledServers_survivors:
  "reconciledServers lookup hits =
     map (the \<circ> serverOfHit lookup) (filter (\<lambda>h. \<not> droppedServerHit lookup h) hits)"
  by (simp add: reconciledServers_map_filter droppedServerHit_iff)

text \<open>
  C8.  In both embedding-path discovery calls the result lists the hits that are not
  dropped, in the order in which the search returned them, each as the entry its name
  resolves to: the result is the list of hits, filtered and then mapped, with no other
  rearrangement.
\<close>

theorem reconciliation_keeps_search_order:
  "(embeddingsClient g = Some c \<and> generateEmbedding ext query = (Inr v, evEmbed)
      \<and> SearchVectors ext c v
           (Some \<lparr>CollectionName = ''mcp-server-collection'', ExcludeCollections = [],
                  Limit = limit\<rparr>) = (Inr serverHits, evSearch) \<longrightarrow>
    fst (findServersByEmbedding ext g query limit) =
      Inr (map (the \<circ> serverOfHit (configurationFind g))
             (filter (\<lambda>h. \<not> droppedServerHit (configurationFind g) h) serverHits)))
   \<and> (embeddingsClient g = Some c \<and> generateEmbedding ext query = (Inr v, evEmbed)
      \<and> SearchVectors ext c v
           (Some \<lparr>CollectionName = [], ExcludeCollections = [''mcp-server-collection''],
                  Limit = 5\<rparr>) = (Inr toolHits, evSearch') \<longrightarrow>
    fst (findToolsByEmbedding ext g query) =
      Inr (map (the \<circ> toolOfHit (toolRegistrations g))
             (filter (\<lambda>h. toolOfHit (toolRegistrations g) h \<noteq> None) toolHits)))
   \<and> (serverOfHit lookup h = Some info \<longrightarrow> serverHitName h = Some (info_name info))
   \<and> (toolOfHit registrations h = Some tool \<longrightarrow>
        (\<exists>toolReg. toolHitName h \<noteq> None
           \<and> registrations (the (toolHitName h)) = Some toolReg \<and> tool = toolInfo toolReg))"
proof (intro conjI impI)
  assume a: "embeddingsClient g = Some c \<and> generateEmbedding ext query = (Inr v, evEmbed)
      \<and> SearchVectors ext c v
           (Some \<lparr>CollectionName = ''mcp-server-collection'', ExcludeCollections = [],
                  Limit = limit\<rparr>) = (Inr serverHits, evSearch)"
  have "findServersByEmbedding ext g query limit =
        (Inr (reconciledServers (configurationFind g) serverHits),
         evEmbed @ evSearch @ serverWarnings (configurationFind g) serverHits)"
    by (rule findServersByEmbedding_success) (use a in blast)+
  then show "fst (findServersByEmbedding ext g query limit) =
      Inr (map (the \<circ> serverOfHit (configurationFind g))
             (filter (\<lambda>h. \<not> droppedServerHit (configurationFind g) h) serverHits))"
    by (simp add: reconciledServers_survivors)
next
  assume a: "embeddingsClient g = Some c \<and> generateEmbedding ext query = (Inr v, evEmbed)
      \<and> SearchVectors ext c v
           (Some \<lparr>CollectionName = [], ExcludeCollections = [''mcp-server-collection''],
                  Limit = 5\<rparr>) = (Inr toolHits, evSearch')"
  have "findToolsByEmbedding ext g query =
        (Inr (reconciledTools (toolRegistrations g) toolHits),
         evEmbed @ evSearch' @ toolWarnings (toolRegistrations g) toolHits)"
    by (rule findToolsByEmbedding_success) (use a in blast)+
  then show "fst (findToolsByEmbedding ext g query) =
      Inr (map (the \<circ> toolOfHit (toolRegistrations g))
             (filter (\<lambda>h. toolOfHit (toolRegistrations g) h \<noteq> None) toolHits))"
    by (simp add: reconciledTools_map_filter)
next
  assume "serverOfHit lookup h = Some info"
  then show "serverHitName h = Some (info_name info)"
    by (auto simp add: serverOfHit_def serverInfo_def split: option.splits)
next
  assume "toolOfHit registrations h = Some tool"
  then show "\<exists>toolReg. toolHitName h \<noteq> None
           \<and> registrations (the (toolHitName h)) = Some toolReg \<and> tool = toolInfo toolReg"
    by (auto simp add: toolOfHit_def split: option.splits if_splits)
qed

theorem reconciliation_keeps_search_order_witness:
  "map serverHitName exampleServerHits =
     [Some ''github'', None, None, Some ''gone'', Some ''weather'']
   \<and> map_sum id (map info_name)
        (fst (findServersByEmbedding exampleExternal exampleGateway ''source control'' 10)) =
       Inr [''github'', ''weather'']
   \<and> fst (findServersByEmbedding exampleExternal exampleGateway ''source control'' 10) =
       Inr (map (the \<circ> serverOfHit exampleFind)
              (filter (\<lambda>h. \<not> droppedServerHit exampleFind h) exampleServerHits))
   \<and> fst (findToolsByEmbedding exampleExternal exampleGateway ''file a bug'') =
       Inr (map (the \<circ> toolOfHit exampleRegistrations)
              (filter (\<lambda>h. toolOfHit exampleRegistrations h \<noteq> None) exampleToolHits))"
proof -
  let ?sOpts = "\<lparr>CollectionName = ''mcp-server-collection'', ExcludeCollections = [],
                    Limit = 10\<rparr>"
  let ?tOpts = "\<lparr>CollectionName = [], ExcludeCollections = [''mcp-server-collection''],
                    Limit = 5\<rparr>"
  let ?sCall = "[ToolCalled ''search'' \<lparr>CollectionName = ''mcp-server-collection'',
                    ExcludeCollections = [], Limit = 10, Vector = [0, 1]\<rparr>]"
  let ?tCall = "[ToolCalled ''search'' \<lparr>CollectionName = [],
                    ExcludeCollections = [''mcp-server-collection''], Limit = 5,
                    Vector = [0, 1]\<rparr>]"
  have c: "embeddingsClient exampleGateway = Some exampleClient"
    by (simp add: exampleGateway_def)
  have g1: "generateEmbedding exampleExternal ''source control'' =
      (Inr [0, 1], [EmbeddingRequested ''source control''])"
    by (simp add: generateEmbedding_def exampleExternal_def)
  have g2: "generateEmbedding exampleExternal ''file a bug'' =
      (Inr [0, 1], [EmbeddingRequested ''file a bug''])"
    by (simp add: generateEmbedding_def exampleExternal_def)
  have v1: "SearchVectors exampleExternal exampleClient [0, 1] (Some ?sOpts) =
      (Inr exampleServerHits, ?sCall)"
    by (simp add: SearchVectors_def CallTool_def exampleExternal_def exampleClient_def
        exampleCallTool_def exampleUnmarshal_def exampleServerHits_def)
  have v2: "SearchVectors exampleExternal exampleClient [0, 1] (Some ?tOpts) =
      (Inr exampleToolHits, ?tCall)"
    by (simp add: SearchVectors_def CallTool_def exampleExternal_def exampleClient_def
        exampleCallTool_def exampleUnmarshal_def exampleToolHits_def)
  note t = reconciliation_keeps_search_order[where g = exampleGateway and c = exampleClient
      and ext = exampleExternal and query = "''source control''" and v = "[0, 1]"
      and evEmbed = "[EmbeddingRequested ''source control'']" and limit = 10
      and serverHits = exampleServerHits and evSearch = ?sCall,
      THEN conjunct1, rule_format, OF conjI[OF c conjI[OF g1 v1]]]
  note t' = reconciliation_keeps_search_order[where g = exampleGateway and c = exampleClient
      and ext = exampleExternal and query = "''file a bug''" and v = "[0, 1]"
      and evEmbed = "[EmbeddingRequested ''file a bug'']"
      and toolHits = exampleToolHits and evSearch' = ?tCall,
      THEN conjunct2, THEN conjunct1, rule_format, OF conjI[OF c conjI[OF g2 v2]]]
  have n: "map serverHitName exampleServerHits =
     [Some ''github'', None, None, Some ''gone'', Some ''weather'']"
    by code_simp
  have m: "map_sum id (map info_name)
        (fst (findServersByEmbedding exampleExternal exampleGateway ''source control'' 10)) =
       Inr [''github'', ''weather'']"
    by code_simp
  from t t' n m show ?thesis
    by (simp add: exampleGateway_def)
qed

section \<open>Properties of the issued searches\<close>

lemma CallTool_events: "CallTool ext c n a = (r, evs) \<Longrightarrow> set evs \<subseteq> {ToolCalled n a}"
  by (auto simp add: CallTool_def split: option.splits sum.splits)

lemma SearchVectors_events:
  "SearchVectors ext c v (Some opts) = (r, evs) \<Longrightarrow>
   set evs \<subseteq> {ToolCalled ''search''
                  \<lparr>CollectionName = CollectionName opts,
                   ExcludeCollections = ExcludeCollections opts,
                   Limit = Limit opts, Vector = v\<rparr>}"
  using CallTool_events[of ext c "''search''"]
  by (auto simp add: SearchVectors_def Let_def split: prod.splits)

lemma generateEmbedding_events:
  "generateEmbedding ext t = (r, evs) \<Longrightarrow> set evs \<subseteq> {EmbeddingRequested t}"
  by (auto simp add: generateEmbedding_def split: if_splits)

lemma serverWarnings_events: "set (serverWarnings lookup hits) \<subseteq> range Warning"
  by (auto simp add: serverWarnings_def reconcileServers_acc serverStep_def split: option.splits)

lemma toolWarnings_events: "set (toolWarnings regs hits) \<subseteq> range Warning"
  by (auto simp add: toolWarnings_def reconcileTools_acc toolStep_def split: option.splits)

lemma findServersByEmbedding_calls:
  assumes "findServersByEmbedding ext g q limit = (r, evs)" "ToolCalled n a \<in> set evs"
  shows "n = ''search'' \<and> CollectionName a = ''mcp-server-collection''
       \<and> ExcludeCollections a = [] \<and> Limit a = limit"
proof (cases "embeddingsClient g")
  case None
  with assms show ?thesis by (simp add: findServersByEmbedding_def)
next
  case (Some c)
  obtain re evE where ge: "generateEmbedding ext q = (re, evE)" by (cases "generateEmbedding ext q")
  note gev = generateEmbedding_events[OF ge]
  show ?thesis
  proof (cases re)
    case (Inl e)
    with assms Some ge gev show ?thesis by (auto simp add: findServersByEmbedding_def)
  next
    case (Inr v)
    let ?opts = "\<lparr>CollectionName = ''mcp-server-collection'', ExcludeCollections = [],
                   Limit = limit\<rparr>"
    obtain rs evS where sv: "SearchVectors ext c v (Some ?opts) = (rs, evS)"
      by (cases "SearchVectors ext c v (Some ?opts)")
    note sev = SearchVectors_events[OF sv]
    have "set evs \<subseteq> set evE \<union> set evS \<union> range Warning"
    proof (cases rs)
      case (Inl e)
      with assms(1) Some ge Inr sv show ?thesis
        by (auto simp add: findServersByEmbedding_def)
    next
      case hits: (Inr hits)
      from findServersByEmbedding_success[OF Some ge[unfolded Inr] sv[unfolded hits]] assms(1)
      have "evs = evE @ evS @ serverWarnings (configurationFind g) hits" by simp
      with serverWarnings_events[of "configurationFind g" hits] show ?thesis by auto
    qed
    with assms(2) have "ToolCalled n a \<in> set evE \<union> set evS \<union> range Warning" by blast
    with gev have "ToolCalled n a \<in> set evS" by auto
    with sev have "ToolCalled n a = ToolCalled ''search''
        \<lparr>CollectionName = ''mcp-server-collection'', ExcludeCollections = [],
         Limit = limit, Vector = v\<rparr>"
      by auto
    then show ?thesis by simp
  qed
qed

lemma findToolsByEmbedding_calls:
  assumes "findToolsByEmbedding ext g q = (r, evs)" "ToolCalled n a \<in> set evs"
  shows "n = ''search'' \<and> CollectionName a = []
       \<and> ExcludeCollections a = [''mcp-server-collection''] \<and> Limit a = 5"
proof (cases "embeddingsClient g")
  case None
  with assms show ?thesis by (simp add: findToolsByEmbedding_def)
next
  case (Some c)
  obtain re evE where ge: "generateEmbedding ext q = (re, evE)" by (cases "generateEmbedding ext q")
  note gev = generateEmbedding_events[OF ge]
  show ?thesis
  proof (cases re)
    case (Inl e)
    with assms Some ge gev show ?thesis by (auto simp add: findToolsByEmbedding_def)
  next
    case (Inr v)
    let ?opts = "\<lparr>CollectionName = [], ExcludeCollections = [''mcp-server-collection''],
                   Limit = 5\<rparr>"
    obtain rs evS where sv: "SearchVectors ext c v (Some ?opts) = (rs, evS)"
      by (cases "SearchVectors ext c v (Some ?opts)")
    note sev = SearchVectors_events[OF sv]
    have "set evs \<subseteq> set evE \<union> set evS \<union> range Warning"
    proof (cases rs)
      case (Inl e)
      with assms(1) Some ge Inr sv show ?thesis
        by (auto simp add: findToolsByEmbedding_def)
    next
      case hits: (Inr hits)
      from findToolsByEmbedding_success[OF Some ge[unfolded Inr] sv[unfolded hits]] assms(1)
      have "evs = evE @ evS @ toolWarnings (toolRegistrations g) hits" by simp
      with toolWarnings_events[of "toolRegistrations g" hits] show ?thesis by auto
    qed
    with assms(2) have "ToolCalled n a \<in> set evE \<union> set evS \<union> range Warning" by blast
    with gev have "ToolCalled n a \<in> set evS" by auto
    with sev have "ToolCalled n a = ToolCalled ''search''
        \<lparr>CollectionName = [], ExcludeCollections = [''mcp-server-collection''],
         Limit = 5, Vector = v\<rparr>"
      by auto
    then show ?thesis by simp
  qed
qed

lemma embeddingStrategy_events:
  assumes "embeddingStrategy ext g decode marshal req = (r, evs)" "evs \<noteq> []"
  shows "\<exists>(params :: FindParams) r'. parseParams decode req = Inr params
          \<and> findServersByEmbedding ext g (Prompt params)
                (normalizeLimit (FindParams.Limit params)) = (r', evs)"
  using assms
  by (auto simp add: embeddingStrategy_def Let_def
      split: sum.splits if_splits prod.splits option.splits)

lemma findToolsHandler_events:
  assumes "findToolsHandler ext g decode marshal req = (r, evs)" "evs \<noteq> []"
  shows "\<exists>prompt r'. findToolsByEmbedding ext g prompt = (r', evs)"
  using assms
  by (auto simp add: findToolsHandler_def
      split: sum.splits if_splits prod.splits option.splits)

lemma reconciledServers_from_catalog:
  assumes "info \<in> set (reconciledServers lookup hits)"
  shows "\<exists>serverName server. lookup serverName = Some server
      \<and> info = serverInfo serverName (Spec server)"
proof -
  from assms obtain h where "serverOfHit lookup h = Some info"
    by (auto simp add: reconciledServers_map_filter)
  then show ?thesis
    by (auto simp add: serverOfHit_def split: option.splits)
qed

lemma reconciledTools_from_registry:
  assumes "tool \<in> set (reconciledTools regs hits)"
  shows "\<exists>toolName toolReg. regs toolName = Some toolReg \<and> tool = toolInfo toolReg"
proof -
  from assms obtain h where "toolOfHit regs h = Some tool"
    by (auto simp add: reconciledTools_map_filter)
  then show ?thesis
    by (auto simp add: toolOfHit_def split: option.splits if_splits)
qed

lemma exampleExternal_honours_limit: "searchHonoursLimit exampleExternal"
  unfolding searchHonoursLimit_def
  by (auto simp add: SearchVectors_def CallTool_def exampleExternal_def exampleCallTool_def
      exampleUnmarshal_def Let_def split: option.splits if_splits)



text \<open>
  C7.  The only tool call a tool discovery sends to the index is a \<open>search\<close> that
  excludes \<open>mcp-server-collection\<close> and names no collection, and the only one a
  server discovery by embedding sends is a \<open>search\<close> restricted to
  \<open>mcp-server-collection\<close> with nothing excluded.  Every entry of a tool result is built
  from a registration of the tool registry and every entry of a server result from a
  server of the catalog, so neither kind shows up in the other's results.
\<close>

theorem discovery_searches_are_scoped:
  "(findToolsHandler ext g decodeTools marshalTools req = (toolsResult, evs)
      \<and> ToolCalled name args \<in> set evs \<longrightarrow>
    name = ''search'' \<and> CollectionName args = []
      \<and> ExcludeCollections args = [''mcp-server-collection''])
   \<and> (embeddingStrategy ext g decode marshal req' = (serversResult, evs')
      \<and> ToolCalled name' args' \<in> set evs' \<longrightarrow>
    name' = ''search'' \<and> CollectionName args' = ''mcp-server-collection''
      \<and> ExcludeCollections args' = [])
   \<and> (findToolsHandler ext g decodeTools marshalTools req = (Inr tools, evs) \<and> tool \<in> set tools \<longrightarrow>
    (\<exists>toolName toolReg. toolRegistrations g toolName = Some toolReg
       \<and> tool = toolInfo toolReg))
   \<and> (embeddingStrategy ext g decode marshal req' = (Inr resp, evs') \<and> info \<in> set (servers resp) \<longrightarrow>
    (\<exists>serverName server. configurationFind g serverName = Some server
       \<and> info = serverInfo serverName (Spec server)))"
proof -
  have toolCalls: "findToolsHandler ext g decodeTools marshalTools req = (toolsResult, evs)
      \<and> ToolCalled name args \<in> set evs \<longrightarrow>
    name = ''search'' \<and> CollectionName args = []
      \<and> ExcludeCollections args = [''mcp-server-collection'']"
  proof
    assume a: "findToolsHandler ext g decodeTools marshalTools req = (toolsResult, evs)
      \<and> ToolCalled name args \<in> set evs"
    then have "evs \<noteq> []" by auto
    with a findToolsHandler_events[of ext g decodeTools marshalTools req toolsResult evs]
    obtain prompt r' where "findToolsByEmbedding ext g prompt = (r', evs)" by auto
    from findToolsByEmbedding_calls[OF this, of name args] a
    show "name = ''search'' \<and> CollectionName args = []
      \<and> ExcludeCollections args = [''mcp-server-collection'']"
      by simp
  qed
  have serverCalls: "embeddingStrategy ext g decode marshal req' = (serversResult, evs')
      \<and> ToolCalled name' args' \<in> set evs' \<longrightarrow>
    name' = ''search'' \<and> CollectionName args' = ''mcp-server-collection''
      \<and> ExcludeCollections args' = []"
  proof
    assume a: "embeddingStrategy ext g decode marshal req' = (serversResult, evs')
      \<and> ToolCalled name' args' \<in> set evs'"
    then have "evs' \<noteq> []" by auto
    with a embeddingStrategy_events[of ext g decode marshal req' serversResult evs']
    obtain params :: FindParams and r' where "findServersByEmbedding ext g (Prompt params)
            (normalizeLimit (FindParams.Limit params)) = (r', evs')" by auto
    from findServersByEmbedding_calls[OF this, of name' args'] a
    show "name' = ''search'' \<and> CollectionName args' = ''mcp-server-collection''
      \<and> ExcludeCollections args' = []"
      by simp
  qed
  have toolsFrom: "findToolsHandler ext g decodeTools marshalTools req = (Inr tools, evs)
      \<and> tool \<in> set tools \<longrightarrow>
    (\<exists>toolName toolReg. toolRegistrations g toolName = Some toolReg
       \<and> tool = toolInfo toolReg)"
  proof
    assume a: "findToolsHandler ext g decodeTools marshalTools req = (Inr tools, evs) \<and> tool \<in> set tools"
    then obtain prompt where "findToolsByEmbedding ext g prompt = (Inr tools, evs)"
      using findToolsHandler_Inr[of ext g decodeTools marshalTools req tools evs] by auto
    from findToolsByEmbedding_Inr[OF this] obtain hits where
      "tools = reconciledTools (toolRegistrations g) hits" by auto
    with a have "tool \<in> set (reconciledTools (toolRegistrations g) hits)" by simp
    then show "\<exists>toolName toolReg. toolRegistrations g toolName = Some toolReg
       \<and> tool = toolInfo toolReg"
      by (rule reconciledTools_from_registry)
  qed
  have serversFrom: "embeddingStrategy ext g decode marshal req' = (Inr resp, evs')
      \<and> info \<in> set (servers resp) \<longrightarrow>
    (\<exists>serverName server. configurationFind g serverName = Some server
       \<and> info = serverInfo serverName (Spec server))"
  proof
    assume a: "embeddingStrategy ext g decode marshal req' = (Inr resp, evs')
      \<and> info \<in> set (servers resp)"
    then obtain params :: FindParams and found where
      f: "findServersByEmbedding ext g (Prompt params)
            (normalizeLimit (FindParams.Limit params)) = (Inr found, evs')"
      and r: "servers resp = found"
      using embeddingStrategy_Inr[of ext g decode marshal req' resp evs'] by auto
    from findServersByEmbedding_Inr[OF f] obtain hits where
      "found = reconciledServers (configurationFind g) hits" by auto
    with a r have "info \<in> set (reconciledServers (configurationFind g) hits)" by simp
    then show "\<exists>serverName server. configurationFind g serverName = Some server
       \<and> info = serverInfo serverName (Spec server)"
      by (rule reconciledServers_from_catalog)
  qed
  show ?thesis
    by (rule conjI[OF toolCalls conjI[OF serverCalls conjI[OF toolsFrom serversFrom]]])
qed

theorem discovery_searches_are_scoped_witness:
  "findToolsHandler exampleExternal exampleGateway exampleDecodePrompt exampleMarshal
      (request [(''prompt'', JString ''file a bug'')]) =
     (Inr [toolInfo \<lparr>ServerName = ''github'', RegisteredTool = exampleTool\<rparr>,
           toolInfo \<lparr>ServerName = ''github'', RegisteredTool = exampleTool\<rparr>],
      [EmbeddingRequested ''file a bug'',
       ToolCalled ''search''
         \<lparr>CollectionName = [], ExcludeCollections = [''mcp-server-collection''],
          Limit = 5, Vector = [0, 1]\<rparr>,
       Warning (ToolNotFound ''removed_tool''), Warning (MissingTool 8),
       Warning (NoToolName [(''tool'', JObject [(''name'', JBool False)])])])
   \<and> snd (embeddingStrategy exampleExternal exampleGateway exampleDecode exampleMarshal
          (request [(''prompt'', JString ''source control'')])) =
     [EmbeddingRequested ''source control'',
      ToolCalled ''search''
        \<lparr>CollectionName = ''mcp-server-collection'', ExcludeCollections = [],
         Limit = 10, Vector = [0, 1]\<rparr>,
      Warning (MissingName 2), Warning (NameNotString (JBool True)),
      Warning (ServerNotFound ''gone'')]"
proof -
  let ?treq = "request [(''prompt'', JString ''file a bug'')]"
  let ?sreq = "request [(''prompt'', JString ''source control'')]"
  let ?targs = "\<lparr>CollectionName = [], ExcludeCollections = [''mcp-server-collection''],
          Limit = 5, Vector = [0, 1]\<rparr>"
  let ?sargs = "\<lparr>CollectionName = ''mcp-server-collection'', ExcludeCollections = [],
         Limit = 10, Vector = [0, 1]\<rparr>"
  let ?tools = "[toolInfo \<lparr>ServerName = ''github'', RegisteredTool = exampleTool\<rparr>,
           toolInfo \<lparr>ServerName = ''github'', RegisteredTool = exampleTool\<rparr>]"
  let ?tevs = "[EmbeddingRequested ''file a bug'', ToolCalled ''search'' ?targs,
       Warning (ToolNotFound ''removed_tool''), Warning (MissingTool 8),
       Warning (NoToolName [(''tool'', JObject [(''name'', JBool False)])])]"
  let ?sevs = "[EmbeddingRequested ''source control'', ToolCalled ''search'' ?sargs,
      Warning (MissingName 2), Warning (NameNotString (JBool True)),
      Warning (ServerNotFound ''gone'')]"
  let ?sres = "fst (embeddingStrategy exampleExternal exampleGateway exampleDecode exampleMarshal ?sreq)"
  have t: "findToolsHandler exampleExternal exampleGateway exampleDecodePrompt exampleMarshal ?treq =
      (Inr ?tools, ?tevs)"
    by code_simp
  have s: "snd (embeddingStrategy exampleExternal exampleGateway exampleDecode exampleMarshal ?sreq) = ?sevs"
    by code_simp
  then have s': "embeddingStrategy exampleExternal exampleGateway exampleDecode exampleMarshal ?sreq =
      (?sres, ?sevs)"
    by (metis prod.collapse)
  have tin: "ToolCalled ''search'' ?targs \<in> set ?tevs" by simp
  have sin: "ToolCalled ''search'' ?sargs \<in> set ?sevs" by simp
  note c = discovery_searches_are_scoped[where ext = exampleExternal and g = exampleGateway
      and decodeTools = exampleDecodePrompt and marshalTools = exampleMarshal and req = ?treq and toolsResult = "Inr ?tools"
      and evs = ?tevs and name = "''search''" and args = ?targs,
      THEN conjunct1, rule_format, OF conjI[OF t tin]]
  note c' = discovery_searches_are_scoped[where ext = exampleExternal and g = exampleGateway
      and decode = exampleDecode and marshal = exampleMarshal and req' = ?sreq and serversResult = ?sres
      and evs' = ?sevs and name' = "''search''" and args' = ?sargs,
      THEN conjunct2, THEN conjunct1, rule_format, OF conjI[OF s' sin]]
  from c c' t s show ?thesis by simp
qed

text \<open>
  C9.  Every search a find-tools call sends asks for the fixed limit 5; the call returns
  one tool for each hit it keeps, hence at most 5 tools whatever the registry holds, when
  the index service answers with at most the number of hits asked for.  The input schema
  of the tool has the single property \<open>prompt\<close>: the caller cannot pass a limit.
\<close>

theorem find_tools_limit_is_five:
  "(findToolsHandler ext g decodeTools marshalTools req = (toolsResult, evs)
      \<and> ToolCalled name args \<in> set evs \<longrightarrow> name = ''search'' \<and> Limit args = 5)
   \<and> (searchHonoursLimit ext \<and> findToolsHandler ext g decodeTools marshalTools req = (Inr tools, evs) \<longrightarrow>
        length tools \<le> 5)
   \<and> schemaProperties (InputSchema findToolsTool) = [''prompt'']"
proof -
  have calls: "findToolsHandler ext g decodeTools marshalTools req = (toolsResult, evs)
      \<and> ToolCalled name args \<in> set evs \<longrightarrow> name = ''search'' \<and> Limit args = 5"
  proof
    assume a: "findToolsHandler ext g decodeTools marshalTools req = (toolsResult, evs)
      \<and> ToolCalled name args \<in> set evs"
    then have "evs \<noteq> []" by auto
    with a findToolsHandler_events[of ext g decodeTools marshalTools req toolsResult evs]
    obtain prompt r' where "findToolsByEmbedding ext g prompt = (r', evs)" by auto
    from findToolsByEmbedding_calls[OF this, of name args] a
    show "name = ''search'' \<and> Limit args = 5" by simp
  qed
  have bound: "searchHonoursLimit ext
      \<and> findToolsHandler ext g decodeTools marshalTools req = (Inr tools, evs) \<longrightarrow> length tools \<le> 5"
  proof
    assume a: "searchHonoursLimit ext
      \<and> findToolsHandler ext g decodeTools marshalTools req = (Inr tools, evs)"
    then obtain prompt where "findToolsByEmbedding ext g prompt = (Inr tools, evs)"
      using findToolsHandler_Inr[of ext g decodeTools marshalTools req tools evs] by auto
    from findToolsByEmbedding_Inr[OF this] obtain c v hits evSearch where
      s: "SearchVectors ext c v (Some \<lparr>CollectionName = [],
                ExcludeCollections = [''mcp-server-collection''], Limit = 5\<rparr>)
            = (Inr hits, evSearch)"
      and t: "tools = reconciledTools (toolRegistrations g) hits"
      by auto
    from a s have "int (length hits) \<le> 5"
      by (auto simp add: searchHonoursLimit_def dest!: spec)
    with length_reconciledTools[of "toolRegistrations g" hits] t
    show "length tools \<le> 5" by simp
  qed
  have schema: "schemaProperties (InputSchema findToolsTool) = [''prompt'']"
    by (simp add: findToolsTool_def)
  show ?thesis
    by (rule conjI[OF calls conjI[OF bound schema]])
qed

theorem find_tools_limit_is_five_witness:
  "searchHonoursLimit exampleExternal
   \<and> length exampleToolHits = 5
   \<and> findToolsHandler exampleExternal exampleGateway exampleDecodePrompt exampleMarshal
        (request [(''prompt'', JString ''file a bug'')]) =
       (Inr [toolInfo \<lparr>ServerName = ''github'', RegisteredTool = exampleTool\<rparr>,
             toolInfo \<lparr>ServerName = ''github'', RegisteredTool = exampleTool\<rparr>],
        [EmbeddingRequested ''file a bug'',
         ToolCalled ''search''
           \<lparr>CollectionName = [], ExcludeCollections = [''mcp-server-collection''],
            Limit = 5, Vector = [0, 1]\<rparr>,
         Warning (ToolNotFound ''removed_tool''), Warning (MissingTool 8),
         Warning (NoToolName [(''tool'', JObject [(''name'', JBool False)])])])"
proof -
  let ?treq = "request [(''prompt'', JString ''file a bug'')]"
  let ?targs = "\<lparr>CollectionName = [], ExcludeCollections = [''mcp-server-collection''],
          Limit = 5, Vector = [0, 1]\<rparr>"
  let ?tools = "[toolInfo \<lparr>ServerName = ''github'', RegisteredTool = exampleTool\<rparr>,
           toolInfo \<lparr>ServerName = ''github'', RegisteredTool = exampleTool\<rparr>]"
  let ?tevs = "[EmbeddingRequested ''file a bug'', ToolCalled ''search'' ?targs,
       Warning (ToolNotFound ''removed_tool''), Warning (MissingTool 8),
       Warning (NoToolName [(''tool'', JObject [(''name'', JBool False)])])]"
  have t: "findToolsHandler exampleExternal exampleGateway exampleDecodePrompt exampleMarshal ?treq =
      (Inr ?tools, ?tevs)"
    by code_simp
  have tin: "ToolCalled ''search'' ?targs \<in> set ?tevs" by simp
  have n: "length exampleToolHits = 5" by (simp add: exampleToolHits_def)
  note c = find_tools_limit_is_five[where ext = exampleExternal and g = exampleGateway
      and decodeTools = exampleDecodePrompt and marshalTools = exampleMarshal and req = ?treq and toolsResult = "Inr ?tools"
      and evs = ?tevs and name = "''search''" and args = ?targs,
      THEN conjunct1, rule_format, OF conjI[OF t tin]]
  note b = find_tools_limit_is_five[where ext = exampleExternal and g = exampleGateway
      and decodeTools = exampleDecodePrompt and marshalTools = exampleMarshal and req = ?treq and tools = ?tools
      and evs = ?tevs,
      THEN conjunct2, THEN conjunct1, rule_format,
      OF conjI[OF exampleExternal_honours_limit t]]
  from c b t n exampleExternal_honours_limit show ?thesis by simp
qed

section \<open>Properties of the index client\<close>

text \<open>
  \<open>Close\<close> clears the container name and the command, so that a later call neither
  runs \<open>docker stop\<close> nor waits again; failures of these two steps are logged and never
  returned.  It does not clear the session: every call closes the session again and
  returns what that close returns.
\<close>

lemma Close_session_kept: "session (fst (Close w c)) = session c"
  by (simp add: Close_def Let_def split: option.splits prod.splits)

lemma Close_result:
  "fst (snd (Close w c)) = (case session c of None \<Rightarrow> None | Some s \<Rightarrow> sessionCloseResult w)"
  by (simp add: Close_def Let_def split: option.splits prod.splits)

lemma Close_clears: "containerName (fst (Close w c)) = [] \<and> cmd (fst (Close w c)) = None"
  by (simp add: Close_def Let_def split: option.splits prod.splits)

lemma Close_again_skips_container:
  "containerName c = [] \<Longrightarrow> cmd c = None \<Longrightarrow>
   snd (snd (Close w c)) =
     (case session c of None \<Rightarrow> [] | Some s \<Rightarrow> [SessionCloseCalled])
     @ [Log ''close the DBClient'', Log ''DBClient closed'']"
  by (simp add: Close_def Let_def split: option.splits prod.splits)

text \<open>
  C4 does not hold of the code.  With a session whose close reports the same error on
  every call, three calls of \<open>Close\<close> in a row return that error three times: the
  second and the third call return an error, where C4 and the test \<open>TestCloseIdempotent\<close>
  expect none.
\<close>

theorem Close_returns_session_error_on_every_call:
  "map fst (snd (CloseRepeatedly [failingClose, failingClose, failingClose] exampleClient)) =
     [Some (Err ''exit status 1''), Some (Err ''exit status 1''), Some (Err ''exit status 1'')]"
  by (simp add: Close_def exampleClient_def failingClose_def Let_def)

end
